theory Spec2Isabelle
  imports Main
begin

section \<open>Host platform: completions, strings and numbers\<close>

text \<open>
  The repository is TypeScript that runs on a JavaScript engine. The functions of the
  repository are translated below; what they call in the engine (\<open>Date\<close>, \<open>parseInt\<close>,
  \<open>String.prototype\<close>, \<open>JSON.parse\<close>, \<open>URL\<close>) is modelled after ECMA-262 and the URL
  standard. A JavaScript string is a HOL \<open>string\<close>, one \<open>char\<close> per code unit (code units
  below 256). A JavaScript Number that holds an integer or NaN is an \<open>int option\<close>, with
  \<open>None\<close> for NaN. A thrown exception is the \<open>Inl\<close> of a sum.
\<close>

datatype exn = SyntaxError | TypeError

type_synonym 'a completion = "exn + 'a"

type_synonym number = "int option"

definition tryCatch :: "'a completion \<Rightarrow> (exn \<Rightarrow> 'a completion) \<Rightarrow> 'a completion" where
  "tryCatch body handler = (case body of Inl e \<Rightarrow> handler e | Inr v \<Rightarrow> Inr v)"

definition andThen :: "'a completion \<Rightarrow> ('a \<Rightarrow> 'b completion) \<Rightarrow> 'b completion" where
  "andThen m f = (case m of Inl e \<Rightarrow> Inl e | Inr v \<Rightarrow> f v)"

definition numAdd :: "number \<Rightarrow> number \<Rightarrow> number" where
  "numAdd x y = (case x of None \<Rightarrow> None | Some a \<Rightarrow> (case y of None \<Rightarrow> None | Some b \<Rightarrow> Some (a + b)))"

definition numSub :: "number \<Rightarrow> number \<Rightarrow> number" where
  "numSub x y = (case x of None \<Rightarrow> None | Some a \<Rightarrow> (case y of None \<Rightarrow> None | Some b \<Rightarrow> Some (a - b)))"

definition isDigit :: "char \<Rightarrow> bool" where
  "isDigit c = (48 \<le> (of_char c :: nat) \<and> (of_char c :: nat) \<le> 57)"

definition digitChar :: "nat \<Rightarrow> char" where
  "digitChar n = char_of (48 + n)"

text \<open>\<open>Number.prototype.toString\<close> on an integer (decimal digits, a leading minus sign) and
  on NaN.\<close>

fun digitsOf :: "nat \<Rightarrow> string" where
  "digitsOf n = (if n < 10 then [digitChar n] else digitsOf (n div 10) @ [digitChar (n mod 10)])"

declare digitsOf.simps [simp del]

definition intToString :: "int \<Rightarrow> string" where
  "intToString i = (if i < 0 then CHR ''-'' # digitsOf (nat (- i)) else digitsOf (nat i))"

definition numberToString :: "number \<Rightarrow> string" where
  "numberToString x = (case x of None \<Rightarrow> ''NaN'' | Some i \<Rightarrow> intToString i)"

text \<open>\<open>String.prototype.padStart\<close> with a one-character filler, and
  \<open>String.prototype.substring\<close> on non-negative indices (clamped to the length, swapped
  when out of order).\<close>

definition padStart :: "nat \<Rightarrow> char \<Rightarrow> string \<Rightarrow> string" where
  "padStart n c s = replicate (n - length s) c @ s"

definition substring :: "nat \<Rightarrow> nat \<Rightarrow> string \<Rightarrow> string" where
  "substring a b s =
     (let a' = min a (length s); b' = min b (length s);
          lo = min a' b'; hi = max a' b'
      in take (hi - lo) (drop lo s))"

text \<open>White space of \<open>parseInt\<close> and of the regular expression class \<open>\s\<close>, among the
  code units below 256: TAB, LF, VT, FF, CR, SP, NBSP.\<close>

definition isWhiteSpace :: "char \<Rightarrow> bool" where
  "isWhiteSpace c = ((of_char c :: nat) \<in> {9, 10, 11, 12, 13, 32, 160})"

definition digitValue :: "nat \<Rightarrow> char \<Rightarrow> nat option" where
  "digitValue radix c =
     (let n = (of_char c :: nat);
          v = (if 48 \<le> n \<and> n \<le> 57 then Some (n - 48)
               else if 97 \<le> n \<and> n \<le> 122 then Some (n - 87)
               else if 65 \<le> n \<and> n \<le> 90 then Some (n - 55)
               else None)
      in case v of None \<Rightarrow> None | Some d \<Rightarrow> if d < radix then Some d else None)"

definition radixValue :: "nat \<Rightarrow> string \<Rightarrow> nat" where
  "radixValue radix z =
     foldl (\<lambda>acc c. acc * radix + (case digitValue radix c of None \<Rightarrow> 0 | Some d \<Rightarrow> d)) 0 z"

text \<open>\<open>parseInt(string)\<close> with no radix argument: leading white space and a sign are
  skipped, a \<open>0x\<close> prefix selects radix 16, the longest prefix of digits is read, and an
  empty prefix gives NaN.\<close>

definition parseInt :: "string \<Rightarrow> number" where
  "parseInt inputString =
     (let s = dropWhile isWhiteSpace inputString;
          sign = (if take 1 s = ''-'' then - 1 else (1::int));
          s1 = (if take 1 s = ''+'' \<or> take 1 s = ''-'' then drop 1 s else s);
          hex = (take 2 s1 = ''0x'' \<or> take 2 s1 = ''0X'');
          s2 = (if hex then drop 2 s1 else s1);
          radix = (if hex then 16 else 10);
          z = takeWhile (\<lambda>c. digitValue radix c \<noteq> None) s2
      in if z = [] then None else Some (sign * int (radixValue radix z)))"

section \<open>Host platform: time values and calendar arithmetic\<close>

text \<open>ECMA-262, Date objects: a time value is a number of milliseconds since the epoch;
  the functions below are the abstract operations of the standard on finite time values.\<close>

definition msPerDay :: int where "msPerDay = 86400000"
definition msPerHour :: int where "msPerHour = 3600000"
definition msPerMinute :: int where "msPerMinute = 60000"
definition msPerSecond :: int where "msPerSecond = 1000"

definition Day :: "int \<Rightarrow> int" where
  "Day t = t div msPerDay"

definition TimeWithinDay :: "int \<Rightarrow> int" where
  "TimeWithinDay t = t mod msPerDay"

definition DaysInYear :: "int \<Rightarrow> int" where
  "DaysInYear y =
     (if y mod 4 \<noteq> 0 then 365
      else if y mod 100 \<noteq> 0 then 366
      else if y mod 400 \<noteq> 0 then 365
      else 366)"

definition DayFromYear :: "int \<Rightarrow> int" where
  "DayFromYear y =
     365 * (y - 1970) + (y - 1969) div 4 - (y - 1901) div 100 + (y - 1601) div 400"

text \<open>The standard defines the year of a day as the largest \<open>y\<close> with
  \<open>DayFromYear y \<le> d\<close>. It is computed here from an estimate that is off by at most one
  (lemmas \<open>YearFromDay_bounds\<close> and \<open>YearFromDay_unique\<close> show that it is that year).\<close>

definition YearFromDay :: "int \<Rightarrow> int" where
  "YearFromDay d =
     (let y0 = 1970 + (400 * d) div 146097
      in if d < DayFromYear y0 then y0 - 1
         else if DayFromYear (y0 + 1) \<le> d then y0 + 1
         else y0)"

definition YearFromTime :: "int \<Rightarrow> int" where
  "YearFromTime t = YearFromDay (Day t)"

definition leapDays :: "int \<Rightarrow> int" where
  "leapDays y = (if DaysInYear y = 366 then 1 else 0)"

definition InLeapYear :: "int \<Rightarrow> int" where
  "InLeapYear t = leapDays (YearFromTime t)"

definition DayWithinYear :: "int \<Rightarrow> int" where
  "DayWithinYear t = Day t - DayFromYear (YearFromTime t)"

text \<open>The day within the year on which month \<open>m\<close> (0 to 11) starts; \<open>l\<close> is 1 in a leap
  year and 0 otherwise.\<close>

definition monthStart :: "int \<Rightarrow> int \<Rightarrow> int" where
  "monthStart l m =
     (if m = 0 then 0 else if m = 1 then 31 else if m = 2 then 59 + l
      else if m = 3 then 90 + l else if m = 4 then 120 + l else if m = 5 then 151 + l
      else if m = 6 then 181 + l else if m = 7 then 212 + l else if m = 8 then 243 + l
      else if m = 9 then 273 + l else if m = 10 then 304 + l else 334 + l)"

definition MonthFromTime :: "int \<Rightarrow> int" where
  "MonthFromTime t =
     (let d = DayWithinYear t; l = InLeapYear t
      in if d < 31 then 0 else if d < 59 + l then 1 else if d < 90 + l then 2
         else if d < 120 + l then 3 else if d < 151 + l then 4 else if d < 181 + l then 5
         else if d < 212 + l then 6 else if d < 243 + l then 7 else if d < 273 + l then 8
         else if d < 304 + l then 9 else if d < 334 + l then 10 else 11)"

definition DateFromTime :: "int \<Rightarrow> int" where
  "DateFromTime t = DayWithinYear t - monthStart (InLeapYear t) (MonthFromTime t) + 1"

definition HourFromTime :: "int \<Rightarrow> int" where
  "HourFromTime t = (t div msPerHour) mod 24"

definition MinFromTime :: "int \<Rightarrow> int" where
  "MinFromTime t = (t div msPerMinute) mod 60"

definition SecFromTime :: "int \<Rightarrow> int" where
  "SecFromTime t = (t div msPerSecond) mod 60"

definition MakeTime :: "int \<Rightarrow> int \<Rightarrow> int \<Rightarrow> int \<Rightarrow> int" where
  "MakeTime hour minute sec ms = hour * msPerHour + minute * msPerMinute + sec * msPerSecond + ms"

definition MakeDay :: "int \<Rightarrow> int \<Rightarrow> int \<Rightarrow> int" where
  "MakeDay year month date =
     (let ym = year + month div 12; mn = month mod 12
      in DayFromYear ym + monthStart (leapDays ym) mn + date - 1)"

definition MakeDate :: "int \<Rightarrow> int \<Rightarrow> int" where
  "MakeDate day time = day * msPerDay + time"

definition TimeClip :: "int \<Rightarrow> number" where
  "TimeClip t = (if \<bar>t\<bar> > 8640000000000000 then None else Some t)"

text \<open>\<open>Date.UTC(year, month, date)\<close>: a year from 0 to 99 means 1900 + year.\<close>

definition Date_UTC :: "number \<Rightarrow> number \<Rightarrow> number \<Rightarrow> number" where
  "Date_UTC year month date =
     (case year of None \<Rightarrow> None | Some y \<Rightarrow>
      (case month of None \<Rightarrow> None | Some m \<Rightarrow>
       (case date of None \<Rightarrow> None | Some dt \<Rightarrow>
          (let yr = (if 0 \<le> y \<and> y \<le> 99 then 1900 + y else y)
           in TimeClip (MakeDate (MakeDay yr m dt) (MakeTime 0 0 0 0))))))"

text \<open>A Date object is its time value (\<open>None\<close> for an invalid Date). The UTC getters
  return NaN on an invalid Date; \<open>setUTCDate\<close> leaves an invalid Date invalid.\<close>

definition newDateOfNumber :: "number \<Rightarrow> number" where
  "newDateOfNumber v = (case v of None \<Rightarrow> None | Some t \<Rightarrow> TimeClip t)"

definition getUTCFullYear :: "number \<Rightarrow> number" where
  "getUTCFullYear tv = map_option YearFromTime tv"

definition getUTCMonth :: "number \<Rightarrow> number" where
  "getUTCMonth tv = map_option MonthFromTime tv"

definition getUTCDate :: "number \<Rightarrow> number" where
  "getUTCDate tv = map_option DateFromTime tv"

definition getUTCHours :: "number \<Rightarrow> number" where
  "getUTCHours tv = map_option HourFromTime tv"

definition getUTCMinutes :: "number \<Rightarrow> number" where
  "getUTCMinutes tv = map_option MinFromTime tv"

definition getUTCSeconds :: "number \<Rightarrow> number" where
  "getUTCSeconds tv = map_option SecFromTime tv"

definition setUTCDate :: "number \<Rightarrow> number \<Rightarrow> number" where
  "setUTCDate tv date =
     (case tv of None \<Rightarrow> None | Some t \<Rightarrow>
      (case date of None \<Rightarrow> None | Some dt \<Rightarrow>
         TimeClip (MakeDate (MakeDay (YearFromTime t) (MonthFromTime t) dt) (TimeWithinDay t))))"

section \<open>JSON values and their coercions\<close>

text \<open>The values \<open>JSON.parse\<close> returns. A number of the model is an integer (of a magnitude
  that a double holds exactly); \<open>undefined\<close>, the value of a missing property, is \<open>None\<close>
  of a \<open>json option\<close>. An object keeps its members in source order; a repeated key is
  read at its last occurrence.\<close>

datatype json =
    JNull
  | JBool bool
  | JNumber int
  | JString string
  | JArray "json list"
  | JObject "(string \<times> json) list"

definition truthy :: "json option \<Rightarrow> bool" where
  "truthy v =
     (case v of
        None \<Rightarrow> False
      | Some JNull \<Rightarrow> False
      | Some (JBool b) \<Rightarrow> b
      | Some (JNumber n) \<Rightarrow> n \<noteq> 0
      | Some (JString s) \<Rightarrow> s \<noteq> []
      | Some (JArray xs) \<Rightarrow> True
      | Some (JObject kvs) \<Rightarrow> True)"

definition truthyString :: "string option \<Rightarrow> bool" where
  "truthyString v = (case v of None \<Rightarrow> False | Some s \<Rightarrow> s \<noteq> [])"

fun joinWith :: "string \<Rightarrow> string list \<Rightarrow> string" where
  "joinWith sep [] = []"
| "joinWith sep [x] = x"
| "joinWith sep (x # y # ys) = x @ sep @ joinWith sep (y # ys)"

text \<open>\<open>ToString\<close>: an object is \<open>[object Object]\<close>, an array joins its elements with
  commas (\<open>null\<close> elements as the empty string).\<close>

fun toStringJS :: "json \<Rightarrow> string" where
  "toStringJS JNull = ''null''"
| "toStringJS (JBool b) = (if b then ''true'' else ''false'')"
| "toStringJS (JNumber n) = intToString n"
| "toStringJS (JString s) = s"
| "toStringJS (JArray xs) = joinWith '','' (map (\<lambda>x. if x = JNull then [] else toStringJS x) xs)"
| "toStringJS (JObject kvs) = ''[object Object]''"

definition typeofIsObject :: "json \<Rightarrow> bool" where
  "typeofIsObject v = (case v of JNull \<Rightarrow> True | JArray xs \<Rightarrow> True | JObject kvs \<Rightarrow> True | _ \<Rightarrow> False)"

definition isStringValue :: "json \<Rightarrow> bool" where
  "isStringValue v = (case v of JString s \<Rightarrow> True | _ \<Rightarrow> False)"

definition getProp :: "json \<Rightarrow> string \<Rightarrow> json option" where
  "getProp obj k = (case obj of JObject kvs \<Rightarrow> map_of (rev kvs) k | _ \<Rightarrow> None)"

text \<open>\<open>Object.keys(v).length\<close> for a value whose \<open>typeof\<close> is \<open>object\<close> and that is not
  \<open>null\<close>.\<close>

definition keyCount :: "json \<Rightarrow> nat" where
  "keyCount v =
     (case v of JObject kvs \<Rightarrow> length (remdups (map fst kvs)) | JArray xs \<Rightarrow> length xs | _ \<Rightarrow> 0)"

definition trim :: "string \<Rightarrow> string" where
  "trim s = rev (dropWhile isWhiteSpace (rev (dropWhile isWhiteSpace s)))"

section \<open>The host: clock, time zone, date parser and JSON parser\<close>

text \<open>
  What the engine and its environment decide is a parameter of the model:
  \<^item> \<open>dateParse s\<close> is the time value of \<open>new Date(s)\<close> for a string \<open>s\<close> (\<open>None\<close> for an
    invalid Date); ECMA-262 fixes it on the ISO formats only;
  \<^item> \<open>localTZA\<close> is the offset of local time from UTC in milliseconds (a fixed offset);
  \<^item> \<open>now\<close> is the time value of \<open>new Date()\<close>, the system clock;
  \<^item> \<open>jsonParse s\<close> is \<open>JSON.parse(s)\<close>, \<open>Inl SyntaxError\<close> where it throws.
\<close>

record host =
  dateParse :: "string \<Rightarrow> number"
  localTZA :: int
  now :: int
  jsonParse :: "string \<Rightarrow> json completion"

definition LocalTime :: "host \<Rightarrow> int \<Rightarrow> int" where
  "LocalTime h t = t + localTZA h"

definition UTC :: "host \<Rightarrow> int \<Rightarrow> int" where
  "UTC h t = t - localTZA h"

definition getFullYear :: "host \<Rightarrow> int \<Rightarrow> int" where
  "getFullYear h t = YearFromTime (LocalTime h t)"

definition getMonth :: "host \<Rightarrow> int \<Rightarrow> int" where
  "getMonth h t = MonthFromTime (LocalTime h t)"

definition getDate :: "host \<Rightarrow> int \<Rightarrow> int" where
  "getDate h t = DateFromTime (LocalTime h t)"

text \<open>\<open>Date.prototype.setFullYear(year)\<close> on a valid Date: the local month, day of the
  month and time within the day are kept, the result is clipped.\<close>

definition setFullYear :: "host \<Rightarrow> int \<Rightarrow> int \<Rightarrow> number" where
  "setFullYear h t year =
     (let lt = LocalTime h t;
          newDate = MakeDay year (MonthFromTime lt) (DateFromTime lt)
      in TimeClip (UTC h (MakeDate newDate (TimeWithinDay lt))))"

text \<open>\<open>new Date(value)\<close> for a value that is not undefined: a string is parsed, an
  object or array is first converted to a string, any other primitive to a number.\<close>

definition newDate :: "host \<Rightarrow> json \<Rightarrow> number" where
  "newDate h v =
     (case v of
        JString s \<Rightarrow> dateParse h s
      | JNumber n \<Rightarrow> TimeClip n
      | JBool b \<Rightarrow> TimeClip (if b then 1 else 0)
      | JNull \<Rightarrow> TimeClip 0
      | JArray xs \<Rightarrow> dateParse h (toStringJS v)
      | JObject kvs \<Rightarrow> dateParse h (toStringJS v))"

section \<open>src/utils.ts and src/background/index.ts: the date functions\<close>

text \<open>The regular expression \<open>/^\d{4}-\d{2}-\d{2}$/\<close>.\<close>

definition isAllDayString :: "string \<Rightarrow> bool" where
  "isAllDayString s =
     list_all2 (\<lambda>p c. p c)
       [isDigit, isDigit, isDigit, isDigit, (\<lambda>c. c = CHR ''-''), isDigit, isDigit,
        (\<lambda>c. c = CHR ''-''), isDigit, isDigit] s"

text \<open>The body of \<open>formatDateTimeForGoogle\<close> from the validity check on. \<open>parsed\<close> is the
  Date made from the argument and \<open>dtString\<close> the argument as a string. The copies of the
  function differ in the threshold of the past-year adjustment only: \<open>inputYear <
  currentYear\<close> in src/utils.ts and src/background/index.ts (\<open>slack = 0\<close>) and
  \<open>inputYear < currentYear - 1\<close> in the later background script (\<open>slack = 1\<close>).\<close>

definition formatDateBody :: "host \<Rightarrow> int \<Rightarrow> number \<Rightarrow> string \<Rightarrow> bool \<Rightarrow> string option" where
  "formatDateBody h slack parsed dtString adjustPastYears =
     (case parsed of
        None \<Rightarrow> None
      | Some t0 \<Rightarrow>
          (let currentYear = getFullYear h (now h);
               inputYear = getFullYear h t0;
               date = (if adjustPastYears \<and> inputYear < currentYear - slack
                       then setFullYear h t0 currentYear
                       else Some t0)
           in case date of
                None \<Rightarrow> None
              | Some t \<Rightarrow>
                  (let isAllDay = isAllDayString dtString
                   in if isAllDay then
                        (let year = intToString (getFullYear h t);
                             month = padStart 2 CHR ''0'' (intToString (getMonth h t + 1));
                             day = padStart 2 CHR ''0'' (intToString (getDate h t))
                         in Some (year @ month @ day))
                      else
                        (let year = intToString (YearFromTime t);
                             month = padStart 2 CHR ''0'' (intToString (MonthFromTime t + 1));
                             day = padStart 2 CHR ''0'' (intToString (DateFromTime t));
                             hours = padStart 2 CHR ''0'' (intToString (HourFromTime t));
                             minutes = padStart 2 CHR ''0'' (intToString (MinFromTime t));
                             seconds = padStart 2 CHR ''0'' (intToString (SecFromTime t))
                         in Some (year @ month @ day @ ''T'' @ hours @ minutes @ seconds @ ''Z'')))))"

text \<open>src/utils.ts, \<open>formatDateTimeForGoogle(dateTimeString: string | null | undefined,
  adjustPastYears)\<close>. No operation of the \<open>try\<close> block throws on a string.\<close>

definition formatDateTimeForGoogle :: "host \<Rightarrow> string option \<Rightarrow> bool \<Rightarrow> string option completion" where
  "formatDateTimeForGoogle h dateTimeString adjustPastYears =
     (case dateTimeString of
        None \<Rightarrow> Inr None
      | Some dtString \<Rightarrow>
          if dtString = [] then Inr None
          else tryCatch (Inr (formatDateBody h 0 (dateParse h dtString) dtString adjustPastYears))
                 (\<lambda>error. Inr None))"

text \<open>src/background/index.ts, the untyped copy: the argument is any value of the parsed
  JSON.\<close>

definition formatDateTimeForGoogle_bg :: "host \<Rightarrow> int \<Rightarrow> json option \<Rightarrow> bool \<Rightarrow> string option completion" where
  "formatDateTimeForGoogle_bg h slack dateTimeString adjustPastYears =
     (case dateTimeString of
        None \<Rightarrow> Inr None
      | Some v \<Rightarrow>
          if \<not> truthy (Some v) then Inr None
          else tryCatch (Inr (formatDateBody h slack (newDate h v) (toStringJS v) adjustPastYears))
                 (\<lambda>error. Inr None))"

text \<open>The later background script (src/unnamed/part_010), called on the strings of the
  confirmation form: the same function with the threshold \<open>currentYear - 1\<close>.\<close>

definition formatDateTimeForGoogle_v2 :: "host \<Rightarrow> string option \<Rightarrow> bool \<Rightarrow> string option completion" where
  "formatDateTimeForGoogle_v2 h dateTimeString adjustPastYears =
     (case dateTimeString of
        None \<Rightarrow> Inr None
      | Some dtString \<Rightarrow>
          if dtString = [] then Inr None
          else tryCatch (Inr (formatDateBody h 1 (dateParse h dtString) dtString adjustPastYears))
                 (\<lambda>error. Inr None))"

text \<open>\<open>calculateNextDay(yyyymmdd: string)\<close>, the same in every copy. No operation of the
  \<open>try\<close> block throws on a string, so the \<open>catch\<close> that returns the argument is never
  entered.\<close>

definition calculateNextDay :: "string \<Rightarrow> string completion" where
  "calculateNextDay yyyymmdd =
     tryCatch
       (let year = parseInt (substring 0 4 yyyymmdd);
            month = numSub (parseInt (substring 4 6 yyyymmdd)) (Some 1);
            day = parseInt (substring 6 8 yyyymmdd);
            date0 = newDateOfNumber (Date_UTC year month day);
            date = setUTCDate date0 (numAdd (getUTCDate date0) (Some 1));
            nextYear = numberToString (getUTCFullYear date);
            nextMonth = padStart 2 CHR ''0'' (numberToString (numAdd (getUTCMonth date) (Some 1)));
            nextDay = padStart 2 CHR ''0'' (numberToString (getUTCDate date))
        in Inr (nextYear @ nextMonth @ nextDay))
       (\<lambda>e. Inr yyyymmdd)"

section \<open>src/background/index.ts: the tolerant JSON extractor\<close>

text \<open>\<open>indexOf\<close> and \<open>lastIndexOf\<close> of a character; \<open>None\<close> is the result -1.\<close>

definition indexOf :: "char \<Rightarrow> string \<Rightarrow> nat option" where
  "indexOf c s = (if c \<in> set s then Some (length (takeWhile (\<lambda>x. x \<noteq> c) s)) else None)"

definition lastIndexOf :: "char \<Rightarrow> string \<Rightarrow> nat option" where
  "lastIndexOf c s =
     (if c \<in> set s then Some (length s - 1 - length (takeWhile (\<lambda>x. x \<noteq> c) (rev s))) else None)"

text \<open>\<open>jsonString.replace(/'/g, '"')\<close>.\<close>

definition replaceQuotes :: "string \<Rightarrow> string" where
  "replaceQuotes s = map (\<lambda>c. if c = CHR 0x27 then CHR 0x22 else c) s"

text \<open>\<open>jsonString.replace(/,\s*([}\]])/g, '$1')\<close>: scanning from the left, a comma that is
  followed by white space and then a closing brace or bracket is dropped together with
  the white space, and the scan goes on after the closer.\<close>

function removeTrailingCommas :: "string \<Rightarrow> string" where
  "removeTrailingCommas [] = []"
| "removeTrailingCommas (c # cs) =
     (if c = CHR '','' then
        (case dropWhile isWhiteSpace cs of
           [] \<Rightarrow> c # removeTrailingCommas cs
         | d # ds \<Rightarrow>
             if d = CHR ''}'' \<or> d = CHR '']'' then d # removeTrailingCommas ds
             else c # removeTrailingCommas cs)
      else c # removeTrailingCommas cs)"
  by pat_completeness auto
termination
proof (relation "measure length")
  show "wf (measure length)" by simp
next
  fix c :: char and cs :: string
  show "(cs, c # cs) \<in> measure length" by simp
next
  fix c :: char and cs :: string and d :: char and ds :: string
  assume "dropWhile isWhiteSpace cs = d # ds"
  then have "length (d # ds) \<le> length cs"
    using length_dropWhile_le [of isWhiteSpace cs] by simp
  then show "(ds, c # cs) \<in> measure length" by simp
next
  fix c :: char and cs :: string
  show "(cs, c # cs) \<in> measure length" by simp
next
  fix c :: char and cs :: string
  show "(cs, c # cs) \<in> measure length" by simp
qed

text \<open>\<open>extractAndParseJSONFromString(rawString)\<close>; the result \<open>null\<close> is \<open>None\<close>. The only
  operation of the \<open>try\<close> block that throws is \<open>JSON.parse\<close>.\<close>

definition extractAndParseJSONFromString :: "host \<Rightarrow> string \<Rightarrow> json option completion" where
  "extractAndParseJSONFromString h rawString =
     (if rawString = [] then Inr None
      else
        tryCatch
          (let startIndex = indexOf CHR ''{'' rawString;
               endIndex = lastIndexOf CHR ''}'' rawString
           in case startIndex of
                None \<Rightarrow> Inr None
              | Some si \<Rightarrow>
                  (case endIndex of
                     None \<Rightarrow> Inr None
                   | Some ei \<Rightarrow>
                       if ei < si then Inr None
                       else
                         (let jsonString = substring si (ei + 1) rawString;
                              jsonString1 = replaceQuotes jsonString;
                              jsonString2 = removeTrailingCommas jsonString1
                          in andThen (jsonParse h jsonString2) (\<lambda>jsonObject. Inr (Some jsonObject)))))
          (\<lambda>error. Inr None))"

section \<open>The URL object\<close>

text \<open>A URL with a query is its base and the list of its search parameters.
  \<open>searchParams.set\<close> replaces the first pair of the name and drops the others, or appends.
  \<open>toString\<close> serializes the pairs as application/x-www-form-urlencoded: a space becomes
  \<open>+\<close>, ASCII letters, digits and \<open>* - . _\<close> stay, and any other code point becomes the
  percent-encoded bytes of its UTF-8 form.\<close>

type_synonym searchParams = "(string \<times> string) list"

fun paramsSet :: "string \<Rightarrow> string \<Rightarrow> searchParams \<Rightarrow> searchParams" where
  "paramsSet k v [] = [(k, v)]"
| "paramsSet k v (p # ps) =
     (if fst p = k then (k, v) # filter (\<lambda>q. fst q \<noteq> k) ps else p # paramsSet k v ps)"

definition hexDigitUpper :: "nat \<Rightarrow> char" where
  "hexDigitUpper n = (if n < 10 then char_of (48 + n) else char_of (55 + n))"

definition utf8Bytes :: "char \<Rightarrow> nat list" where
  "utf8Bytes c =
     (let n = (of_char c :: nat) in if n < 128 then [n] else [192 + n div 64, 128 + n mod 64])"

definition urlencodedKeeps :: "char \<Rightarrow> bool" where
  "urlencodedKeeps c =
     (let n = (of_char c :: nat)
      in (48 \<le> n \<and> n \<le> 57) \<or> (65 \<le> n \<and> n \<le> 90) \<or> (97 \<le> n \<and> n \<le> 122)
         \<or> n = 42 \<or> n = 45 \<or> n = 46 \<or> n = 95)"

definition urlencodeChar :: "char \<Rightarrow> string" where
  "urlencodeChar c =
     (if c = CHR '' '' then ''+''
      else if urlencodedKeeps c then [c]
      else concat (map (\<lambda>b. [CHR ''%'', hexDigitUpper (b div 16), hexDigitUpper (b mod 16)])
                     (utf8Bytes c)))"

definition urlencode :: "string \<Rightarrow> string" where
  "urlencode s = concat (map urlencodeChar s)"

definition URL_toString :: "string \<Rightarrow> searchParams \<Rightarrow> string" where
  "URL_toString base ps =
     (if ps = [] then base
      else base @ ''?'' @ joinWith ''&'' (map (\<lambda>p. urlencode (fst p) @ ''='' @ urlencode (snd p)) ps))"

definition calendarBase :: string where
  "calendarBase = ''https://www.google.com/calendar/event''"

section \<open>src/utils.ts: createGoogleCalendarLink_Testable\<close>

record CalendarEventDetails =
  title :: "string option"
  startDate :: "string option"
  endDate :: "string option"
  location :: "string option"
  description :: "string option"

text \<open>Lines 120 to 142: the value of \<open>dateParamValue\<close> from the two formatted dates
  (\<open>None\<close> is \<open>null\<close>).\<close>

definition dateParamValue_Testable :: "string option \<Rightarrow> string option \<Rightarrow> string option completion" where
  "dateParamValue_Testable formattedStartDate formattedEndDate =
     (case formattedStartDate of
        None \<Rightarrow> Inr None
      | Some start \<Rightarrow>
          if start = [] then Inr None
          else
            (let startIsAllDay = (length start = 8)
             in if truthyString formattedEndDate then
                  (case formattedEndDate of
                     None \<Rightarrow> Inr None
                   | Some end \<Rightarrow>
                       (let endIsAllDay = (length end = 8)
                        in if startIsAllDay \<and> endIsAllDay then
                             andThen (calculateNextDay end) (\<lambda>n. Inr (Some (start @ ''/'' @ n)))
                           else if \<not> startIsAllDay \<and> \<not> endIsAllDay then
                             Inr (Some (start @ ''/'' @ end))
                           else Inr (Some (start @ ''/'' @ end))))
                else if startIsAllDay then
                  andThen (calculateNextDay start) (\<lambda>n. Inr (Some (start @ ''/'' @ n)))
                else Inr (Some start)))"

text \<open>The search parameters of the link (\<open>None\<close> where the function returns \<open>null\<close>), and the
  function itself, which returns their serialization.\<close>

definition calendarParams_Testable :: "host \<Rightarrow> CalendarEventDetails option \<Rightarrow> string \<Rightarrow> searchParams option completion" where
  "calendarParams_Testable h jsonObject info =
     (case jsonObject of
        None \<Rightarrow> Inr None
      | Some ev \<Rightarrow>
          andThen (formatDateTimeForGoogle h (startDate ev) True) (\<lambda>formattedStartDate.
          andThen (formatDateTimeForGoogle h (endDate ev) True) (\<lambda>formattedEndDate.
            (let url0 = paramsSet ''action'' ''TEMPLATE'' [];
                 url1 = paramsSet ''text''
                          (if truthyString (title ev) then (case title ev of Some s \<Rightarrow> s | None \<Rightarrow> [])
                           else ''Event from Text'') url0
             in andThen (dateParamValue_Testable formattedStartDate formattedEndDate) (\<lambda>dateParamValue.
                  if truthyString dateParamValue then
                    (let url2 = paramsSet ''dates'' (case dateParamValue of Some s \<Rightarrow> s | None \<Rightarrow> []) url1;
                         url3 = (if truthyString (location ev)
                                 then paramsSet ''location'' (case location ev of Some s \<Rightarrow> s | None \<Rightarrow> []) url2
                                 else url2);
                         detailsText0 = (if truthyString (description ev)
                                         then (case description ev of Some s \<Rightarrow> s | None \<Rightarrow> [])
                                         else []);
                         detailsText = (if info \<noteq> []
                                        then detailsText0 @ (if detailsText0 \<noteq> [] then [CHR 0x0A, CHR 0x0A] else [])
                                               @ ''Original Text:'' @ [CHR 0x0A] @ info
                                        else detailsText0);
                         url4 = (if detailsText \<noteq> [] then paramsSet ''details'' detailsText url3 else url3)
                     in Inr (Some url4))
                  else Inr None)))))"

definition createGoogleCalendarLink_Testable :: "host \<Rightarrow> CalendarEventDetails option \<Rightarrow> string \<Rightarrow> string option completion" where
  "createGoogleCalendarLink_Testable h jsonObject info =
     andThen (calendarParams_Testable h jsonObject info)
       (\<lambda>calendarUrl. Inr (map_option (URL_toString calendarBase) calendarUrl))"

section \<open>src/background/index.ts: the handler of the provider's done event\<close>

text \<open>What the handler leaves behind: an error message for the page (\<open>processingError\<close>), or
  the URL it opened in a new window.\<close>

datatype outcome = ProcessingError string | OpenedWindow string

text \<open>Lines 127 to 143: \<open>dateParamValue\<close> from a non-empty formatted start date and the
  formatted end date.\<close>

definition dateParamValue_bg :: "string \<Rightarrow> string option \<Rightarrow> string completion" where
  "dateParamValue_bg start formattedEndDate =
     (let startIsAllDay = (length start = 8)
      in if truthyString formattedEndDate then
           (case formattedEndDate of
              None \<Rightarrow> Inr start
            | Some end \<Rightarrow>
                (let endIsAllDay = (length end = 8)
                 in if startIsAllDay \<and> endIsAllDay then
                      andThen (calculateNextDay end) (\<lambda>n. Inr (start @ ''/'' @ n))
                    else if \<not> startIsAllDay \<and> \<not> endIsAllDay then
                      Inr (start @ ''/'' @ end)
                    else if startIsAllDay then
                      andThen (calculateNextDay start) (\<lambda>n. Inr (start @ ''/'' @ n))
                    else Inr (start @ ''/'' @ end)))
         else if startIsAllDay then
           andThen (calculateNextDay start) (\<lambda>n. Inr (start @ ''/'' @ n))
         else Inr start)"

text \<open>Lines 159 to 163: the text of the \<open>details\<close> parameter, \<open>None\<close> when it is not set.
  \<open>trim\<close> is called on the description when the selected text is not empty; it throws a
  TypeError on a description that is truthy and not a string.\<close>

definition detailsText_bg :: "json \<Rightarrow> string \<Rightarrow> string option completion" where
  "detailsText_bg jsonObject info =
     (let description = getProp jsonObject ''description'';
          detailsText0 = (if truthy description then (case description of Some v \<Rightarrow> v | None \<Rightarrow> JString [])
                          else JString [])
      in if info \<noteq> [] then
           (case detailsText0 of
              JString d \<Rightarrow>
                (let detailsText =
                       (if trim info \<noteq> trim d
                        then d @ (if d \<noteq> [] then [CHR 0x0A, CHR 0x0A] @ ''---'' @ [CHR 0x0A] else [])
                               @ ''Original Text:'' @ [CHR 0x0A] @ info
                        else d)
                 in Inr (if detailsText \<noteq> [] then Some detailsText else None))
            | _ \<Rightarrow> Inl TypeError)
         else Inr (if truthy (Some detailsText0) then Some (toStringJS detailsText0) else None))"

text \<open>The search parameters of the URL the handler builds from a parsed object that
  passed the checks of lines 104 to 108, or the error message it sets.\<close>

definition calendarParams_bg :: "host \<Rightarrow> json \<Rightarrow> string \<Rightarrow> (string + searchParams) completion" where
  "calendarParams_bg h jsonObject info =
     andThen (formatDateTimeForGoogle_bg h 0 (getProp jsonObject ''startDate'') True) (\<lambda>formattedStartDate.
     andThen (formatDateTimeForGoogle_bg h 0 (getProp jsonObject ''endDate'') True) (\<lambda>formattedEndDate.
       if \<not> truthyString formattedStartDate then
         Inr (Inl ''Failed to extract a valid start date from the text.'')
       else
         andThen (dateParamValue_bg (case formattedStartDate of Some s \<Rightarrow> s | None \<Rightarrow> []) formattedEndDate)
           (\<lambda>dateParamValue.
              if dateParamValue = [] then Inr (Inl ''Failed to format dates for Google Calendar.'')
              else
                (let url0 = paramsSet ''action'' ''TEMPLATE'' [];
                     title = getProp jsonObject ''title'';
                     url1 = paramsSet ''text''
                              (if truthy title then (case title of Some v \<Rightarrow> toStringJS v | None \<Rightarrow> [])
                               else ''Event from Text'') url0;
                     url2 = paramsSet ''dates'' dateParamValue url1;
                     location = getProp jsonObject ''location'';
                     url3 = (if truthy location
                             then paramsSet ''location'' (case location of Some v \<Rightarrow> toStringJS v | None \<Rightarrow> []) url2
                             else url2)
                 in andThen (detailsText_bg jsonObject info) (\<lambda>detailsText.
                      Inr (Inr (case detailsText of None \<Rightarrow> url3
                                | Some d \<Rightarrow> paramsSet ''details'' d url3)))))))"

definition onDone :: "host \<Rightarrow> string \<Rightarrow> string \<Rightarrow> outcome completion" where
  "onDone h info resultAccumulator =
     andThen (extractAndParseJSONFromString h resultAccumulator) (\<lambda>jsonObject.
       case jsonObject of
         None \<Rightarrow>
           Inr (ProcessingError
                  ''Could not understand the response from AI. Please try again or rephrase.'')
       | Some obj \<Rightarrow>
           if \<not> truthy (Some obj) \<or> \<not> typeofIsObject obj \<or> keyCount obj = 0 then
             Inr (ProcessingError
                    ''Could not understand the response from AI. Please try again or rephrase.'')
           else
             andThen (calendarParams_bg h obj info) (\<lambda>r.
               case r of
                 Inl message \<Rightarrow> Inr (ProcessingError message)
               | Inr calendarUrl \<Rightarrow> Inr (OpenedWindow (URL_toString calendarBase calendarUrl))))"

section \<open>A concrete host\<close>

text \<open>
  A host for evaluating the functions on concrete inputs. Its date parser is the date
  time string format of ECMA-262 in the two forms the prompt of the extension asks the
  model for: \<open>YYYY-MM-DD\<close>, which the standard reads as UTC midnight, and
  \<open>YYYY-MM-DDTHH:mm:ss\<close>, which it reads as local time; any other string is an invalid
  Date. Its JSON parser follows the JSON grammar on texts whose numbers are integer
  literals and whose escapes denote code units below 256, and throws on any other text.
\<close>

definition daysInMonth :: "int \<Rightarrow> int \<Rightarrow> int" where
  "daysInMonth y m =
     (if m = 2 then 28 + leapDays y
      else if m = 4 \<or> m = 6 \<or> m = 9 \<or> m = 11 then 30
      else 31)"

definition isLocalDateTimeString :: "string \<Rightarrow> bool" where
  "isLocalDateTimeString s =
     list_all2 (\<lambda>p c. p c)
       [isDigit, isDigit, isDigit, isDigit, (\<lambda>c. c = CHR ''-''), isDigit, isDigit,
        (\<lambda>c. c = CHR ''-''), isDigit, isDigit, (\<lambda>c. c = CHR ''T''), isDigit, isDigit,
        (\<lambda>c. c = CHR '':''), isDigit, isDigit, (\<lambda>c. c = CHR '':''), isDigit, isDigit] s"

definition isoDateParse :: "int \<Rightarrow> string \<Rightarrow> number" where
  "isoDateParse tza s =
     (let y = int (radixValue 10 (substring 0 4 s));
          mo = int (radixValue 10 (substring 5 7 s));
          d = int (radixValue 10 (substring 8 10 s));
          hh = int (radixValue 10 (substring 11 13 s));
          mi = int (radixValue 10 (substring 14 16 s));
          ss = int (radixValue 10 (substring 17 19 s));
          validDate = (1 \<le> mo \<and> mo \<le> 12 \<and> 1 \<le> d \<and> d \<le> daysInMonth y mo)
      in if isAllDayString s then
           (if validDate then TimeClip (MakeDate (MakeDay y (mo - 1) d) 0) else None)
         else if isLocalDateTimeString s then
           (if validDate \<and> hh \<le> 23 \<and> mi \<le> 59 \<and> ss \<le> 59
            then TimeClip (MakeDate (MakeDay y (mo - 1) d) (MakeTime hh mi ss 0) - tza)
            else None)
         else None)"

definition isJsonSpace :: "char \<Rightarrow> bool" where
  "isJsonSpace c = ((of_char c :: nat) \<in> {9, 10, 13, 32})"

definition unescapeChar :: "char \<Rightarrow> char option" where
  "unescapeChar e =
     (if e = CHR 0x22 then Some (CHR 0x22)
      else if e = CHR 0x5C then Some (CHR 0x5C)
      else if e = CHR ''/'' then Some (CHR ''/'')
      else if e = CHR ''b'' then Some (CHR 0x08)
      else if e = CHR ''f'' then Some (CHR 0x0C)
      else if e = CHR ''n'' then Some (CHR 0x0A)
      else if e = CHR ''r'' then Some (CHR 0x0D)
      else if e = CHR ''t'' then Some (CHR 0x09)
      else None)"

text \<open>The characters of a string literal after its opening quote: the string and the
  rest of the input after the closing quote.\<close>

fun parseStringChars :: "nat \<Rightarrow> string \<Rightarrow> string \<Rightarrow> (string \<times> string) option" where
  "parseStringChars 0 acc s = None"
| "parseStringChars (Suc n) acc s =
     (case s of
        [] \<Rightarrow> None
      | c # cs \<Rightarrow>
          if c = CHR 0x22 then Some (rev acc, cs)
          else if c = CHR 0x5C then
            (case cs of
               [] \<Rightarrow> None
             | e # es \<Rightarrow>
                 if e = CHR ''u'' then
                   (let hex = take 4 es;
                        code = radixValue 16 hex
                    in if length hex = 4 \<and> list_all (\<lambda>x. digitValue 16 x \<noteq> None) hex \<and> code < 256
                       then parseStringChars n (char_of code # acc) (drop 4 es)
                       else None)
                 else (case unescapeChar e of
                         None \<Rightarrow> None
                       | Some ch \<Rightarrow> parseStringChars n (ch # acc) es))
          else if (of_char c :: nat) < 32 then None
          else parseStringChars n (c # acc) cs)"

definition parseIntegerLiteral :: "string \<Rightarrow> (json \<times> string) option" where
  "parseIntegerLiteral s =
     (let neg = (take 1 s = ''-'');
          s1 = (if neg then drop 1 s else s);
          ds = takeWhile isDigit s1;
          rest = dropWhile isDigit s1
      in if ds = [] \<or> (length ds > 1 \<and> take 1 ds = ''0'')
            \<or> take 1 rest = ''.'' \<or> take 1 rest = ''e'' \<or> take 1 rest = ''E''
         then None
         else Some (JNumber ((if neg then - 1 else 1) * int (radixValue 10 ds)), rest))"

fun parseValue :: "nat \<Rightarrow> string \<Rightarrow> (json \<times> string) option"
  and parseElements :: "nat \<Rightarrow> json list \<Rightarrow> string \<Rightarrow> (json \<times> string) option"
  and parseMembers :: "nat \<Rightarrow> (string \<times> json) list \<Rightarrow> string \<Rightarrow> (json \<times> string) option" where
  "parseValue 0 s = None"
| "parseValue (Suc n) s =
     (case dropWhile isJsonSpace s of
        [] \<Rightarrow> None
      | c # cs \<Rightarrow>
          if c = CHR ''{'' then
            (if take 1 (dropWhile isJsonSpace cs) = ''}''
             then Some (JObject [], drop 1 (dropWhile isJsonSpace cs))
             else parseMembers n [] cs)
          else if c = CHR ''['' then
            (if take 1 (dropWhile isJsonSpace cs) = '']''
             then Some (JArray [], drop 1 (dropWhile isJsonSpace cs))
             else parseElements n [] cs)
          else if c = CHR 0x22 then
            (case parseStringChars (Suc (length cs)) [] cs of
               None \<Rightarrow> None
             | Some (str, rest) \<Rightarrow> Some (JString str, rest))
          else if take 4 (c # cs) = ''true'' then Some (JBool True, drop 4 (c # cs))
          else if take 5 (c # cs) = ''false'' then Some (JBool False, drop 5 (c # cs))
          else if take 4 (c # cs) = ''null'' then Some (JNull, drop 4 (c # cs))
          else parseIntegerLiteral (c # cs))"
| "parseElements 0 acc s = None"
| "parseElements (Suc n) acc s =
     (case parseValue n s of
        None \<Rightarrow> None
      | Some (v, rest) \<Rightarrow>
          (case dropWhile isJsonSpace rest of
             [] \<Rightarrow> None
           | c # cs \<Rightarrow>
               if c = CHR '','' then parseElements n (acc @ [v]) cs
               else if c = CHR '']'' then Some (JArray (acc @ [v]), cs)
               else None))"
| "parseMembers 0 acc s = None"
| "parseMembers (Suc n) acc s =
     (case dropWhile isJsonSpace s of
        [] \<Rightarrow> None
      | q # qs \<Rightarrow>
          if q \<noteq> CHR 0x22 then None
          else
            (case parseStringChars (Suc (length qs)) [] qs of
               None \<Rightarrow> None
             | Some (k, rest) \<Rightarrow>
                 (case dropWhile isJsonSpace rest of
                    [] \<Rightarrow> None
                  | c # cs \<Rightarrow>
                      if c \<noteq> CHR '':'' then None
                      else
                        (case parseValue n cs of
                           None \<Rightarrow> None
                         | Some (v, rest2) \<Rightarrow>
                             (case dropWhile isJsonSpace rest2 of
                                [] \<Rightarrow> None
                              | c2 # cs2 \<Rightarrow>
                                  if c2 = CHR '','' then parseMembers n (acc @ [(k, v)]) cs2
                                  else if c2 = CHR ''}'' then Some (JObject (acc @ [(k, v)]), cs2)
                                  else None)))))"

definition sampleJsonParse :: "string \<Rightarrow> json completion" where
  "sampleJsonParse s =
     (case parseValue (Suc (length s)) s of
        None \<Rightarrow> Inl SyntaxError
      | Some (v, rest) \<Rightarrow> if dropWhile isJsonSpace rest = [] then Inr v else Inl SyntaxError)"

definition isoHost :: "int \<Rightarrow> int \<Rightarrow> host" where
  "isoHost tza clock =
     \<lparr>dateParse = isoDateParse tza, localTZA = tza, now = clock, jsonParse = sampleJsonParse\<rparr>"

text \<open>The host of the examples: local time is UTC and the clock reads
  2024-06-15T12:00:00Z. \<open>newYorkHost\<close> is the same host five hours west of UTC.\<close>

definition exampleHost :: host where
  "exampleHost = isoHost 0 1718452800000"

definition newYorkHost :: host where
  "newYorkHost = isoHost (- 18000000) 1718452800000"

section \<open>Notions of the specification\<close>

text \<open>The two shapes of a formatted date part, written from their description: the
  decimal year followed by the two-digit month and day of the local calendar fields, and
  the UTC fields with the literal \<open>T\<close> and the trailing \<open>Z\<close>.\<close>

definition pad2 :: "int \<Rightarrow> string" where
  "pad2 n = padStart 2 CHR ''0'' (intToString n)"

definition localDateString :: "host \<Rightarrow> int \<Rightarrow> string" where
  "localDateString h t = intToString (getFullYear h t) @ pad2 (getMonth h t + 1) @ pad2 (getDate h t)"

definition utcDateTimeString :: "int \<Rightarrow> string" where
  "utcDateTimeString t =
     intToString (YearFromTime t) @ pad2 (MonthFromTime t + 1) @ pad2 (DateFromTime t) @ ''T''
       @ pad2 (HourFromTime t) @ pad2 (MinFromTime t) @ pad2 (SecFromTime t) @ ''Z''"

text \<open>The date that is formatted: the parsed date, or the parsed date moved to the
  current year when the adjustment applies (\<open>None\<close> if that leaves the range of valid
  dates).\<close>

definition adjustedDate :: "host \<Rightarrow> int \<Rightarrow> int \<Rightarrow> bool \<Rightarrow> number" where
  "adjustedDate h slack t0 adjustPastYears =
     (if adjustPastYears \<and> getFullYear h t0 < getFullYear h (now h) - slack
      then setFullYear h t0 (getFullYear h (now h))
      else Some t0)"

text \<open>The year of the system clock, and the formatted date part of a date: the shape is
  chosen by the original input string.\<close>

definition currentYear :: "host \<Rightarrow> int" where
  "currentYear h = getFullYear h (now h)"

definition dateString :: "host \<Rightarrow> string \<Rightarrow> int \<Rightarrow> string" where
  "dateString h s t = (if isAllDayString s then localDateString h t else utcDateTimeString t)"

definition isAllDayShape :: "string \<Rightarrow> bool" where
  "isAllDayShape s = (length s = 8 \<and> list_all isDigit s)"

definition isTimedShape :: "string \<Rightarrow> bool" where
  "isTimedShape s =
     list_all2 (\<lambda>p c. p c)
       [isDigit, isDigit, isDigit, isDigit, isDigit, isDigit, isDigit, isDigit,
        (\<lambda>c. c = CHR ''T''), isDigit, isDigit, isDigit, isDigit, isDigit, isDigit,
        (\<lambda>c. c = CHR ''Z'')] s"

text \<open>A calendar date written as the year, the two-digit month and the two-digit day, and
  the calendar day that follows a date.\<close>

definition ymdString :: "int \<Rightarrow> int \<Rightarrow> int \<Rightarrow> string" where
  "ymdString y m d = intToString y @ pad2 m @ pad2 d"

definition nextDate :: "int \<Rightarrow> int \<Rightarrow> int \<Rightarrow> int \<times> int \<times> int" where
  "nextDate y m d =
     (if d < daysInMonth y m then (y, m, d + 1)
      else if m < 12 then (y, m + 1, 1)
      else (y + 1, 1, 1))"

text \<open>The trailing-comma pattern \<open>,\s*[}\]]\<close> occurs somewhere in the string.\<close>

fun hasTrailingComma :: "string \<Rightarrow> bool" where
  "hasTrailingComma [] = False"
| "hasTrailingComma (c # cs) =
     ((c = CHR '','' \<and>
        (case dropWhile isWhiteSpace cs of
           [] \<Rightarrow> False
         | d # ds \<Rightarrow> d = CHR ''}'' \<or> d = CHR '']''))
      \<or> hasTrailingComma cs)"

text \<open>A JSON string literal: the text between double quotes.\<close>

definition dq :: "string \<Rightarrow> string" where
  "dq s = CHR 0x22 # s @ [CHR 0x22]"

text \<open>Events of the examples.\<close>

definition allDayTimedEvent :: CalendarEventDetails where
  "allDayTimedEvent =
     \<lparr>title = Some ''Trip'', startDate = Some ''2024-12-25'',
      endDate = Some ''2024-12-27T10:00:00'', location = Some ''Room 1'', description = None\<rparr>"

definition allDayTimedObject :: json where
  "allDayTimedObject =
     JObject [(''title'', JString ''Trip''), (''startDate'', JString ''2024-12-25''),
              (''endDate'', JString ''2024-12-27T10:00:00'')]"

definition timedAllDayObject :: json where
  "timedAllDayObject =
     JObject [(''title'', JString ''Trip''), (''startDate'', JString ''2024-12-25T09:00:00''),
              (''endDate'', JString ''2024-12-27'')]"

definition structuredLocationObject :: json where
  "structuredLocationObject =
     JObject [(''title'', JString ''Trip''), (''startDate'', JString ''2024-12-25''),
              (''location'', JObject [(''room'', JNumber 7)])]"

section \<open>Calendar arithmetic: auxiliary facts\<close>

lemma int_div_bounds:
  fixes a c :: int
  assumes "0 < c"
  shows "c * (a div c) \<le> a" and "a < c * (a div c) + c"
proof -
  have "a = c * (a div c) + a mod c" by simp
  moreover have "0 \<le> a mod c" "a mod c < c" using assms by simp_all
  ultimately show "c * (a div c) \<le> a" and "a < c * (a div c) + c" by linarith+
qed

lemma int_div_add1:
  fixes a c :: int
  assumes c: "0 < c"
  shows "(a + 1) div c = a div c + (if (a + 1) mod c = 0 then 1 else 0)"
proof (cases "a mod c + 1 < c")
  case True
  have eq: "a + 1 = c * (a div c) + (a mod c + 1)" by simp
  have nn: "0 \<le> a mod c + 1" using c by (simp add: add_nonneg_nonneg)
  have "(a + 1) div c = a div c" using int_div_pos_eq [OF eq nn True] .
  moreover have "(a + 1) mod c = a mod c + 1" using int_mod_pos_eq [OF eq nn True] .
  moreover have "a mod c + 1 \<noteq> 0" using c pos_mod_sign [of c a] by linarith
  ultimately show ?thesis by simp
next
  case False
  moreover have "a mod c < c" using c by simp
  ultimately have r: "a mod c + 1 = c" by linarith
  have "a + 1 = c * (a div c) + (a mod c + 1)" by simp
  then have "a + 1 = c * (a div c) + c" using r by simp
  then have eq: "a + 1 = c * (a div c + 1) + 0" by (simp add: distrib_left)
  have "(a + 1) div c = a div c + 1" using int_div_pos_eq [OF eq _ c] by simp
  moreover have "(a + 1) mod c = 0" using int_mod_pos_eq [OF eq _ c] by simp
  ultimately show ?thesis by simp
qed

lemma mod_shift: "((y::int) - c * k) mod c = y mod c"
  by (metis mod_diff_eq mod_mult_self1_is_0 diff_zero mod_mod_trivial)

lemma DayFromYear_bounds:
  "400 * DayFromYear y \<le> 146097 * y - 287810501"
  "146097 * y - 287811596 \<le> 400 * DayFromYear y"
proof -
  define q4 where "q4 = (y - 1969) div 4"
  define q100 where "q100 = (y - 1901) div 100"
  define q400 where "q400 = (y - 1601) div 400"
  have p: "0 < (4::int)" "0 < (100::int)" "0 < (400::int)" by simp_all
  have b4: "4 * q4 \<le> y - 1969" "y - 1969 < 4 * q4 + 4"
    unfolding q4_def by (rule int_div_bounds [OF p(1)])+
  have b100: "100 * q100 \<le> y - 1901" "y - 1901 < 100 * q100 + 100"
    unfolding q100_def by (rule int_div_bounds [OF p(2)])+
  have b400: "400 * q400 \<le> y - 1601" "y - 1601 < 400 * q400 + 400"
    unfolding q400_def by (rule int_div_bounds [OF p(3)])+
  have e: "DayFromYear y = 365 * y - 719050 + q4 - q100 + q400"
    by (simp add: DayFromYear_def q4_def q100_def q400_def)
  show "400 * DayFromYear y \<le> 146097 * y - 287810501"
    using e b4 b100 b400 by linarith
  show "146097 * y - 287811596 \<le> 400 * DayFromYear y"
    using e b4 b100 b400 by linarith
qed

lemma DayFromYear_Suc: "DayFromYear (y + 1) = DayFromYear y + DaysInYear y"
proof -
  have a: "(y + 1 - 1969) div 4 = (y - 1969) div 4 + (if y mod 4 = 0 then 1 else 0)"
    using int_div_add1 [of 4 "y - 1969"] mod_shift [of y 4 492] by simp
  have b: "(y + 1 - 1901) div 100 = (y - 1901) div 100 + (if y mod 100 = 0 then 1 else 0)"
    using int_div_add1 [of 100 "y - 1901"] mod_shift [of y 100 19] by simp
  have c: "(y + 1 - 1601) div 400 = (y - 1601) div 400 + (if y mod 400 = 0 then 1 else 0)"
    using int_div_add1 [of 400 "y - 1601"] mod_shift [of y 400 4] by simp
  have d1: "y mod 4 = 0" if "y mod 100 = 0"
  proof -
    from that have "100 dvd y" by (simp add: dvd_eq_mod_eq_0)
    moreover have "(4::int) dvd 100" by simp
    ultimately have "4 dvd y" by (rule dvd_trans [rotated])
    then show ?thesis by (simp add: dvd_eq_mod_eq_0)
  qed
  have d2: "y mod 100 = 0" if "y mod 400 = 0"
  proof -
    from that have "400 dvd y" by (simp add: dvd_eq_mod_eq_0)
    moreover have "(100::int) dvd 400" by simp
    ultimately have "100 dvd y" by (rule dvd_trans [rotated])
    then show ?thesis by (simp add: dvd_eq_mod_eq_0)
  qed
  show ?thesis
    unfolding DayFromYear_def DaysInYear_def a b c using d1 d2 by auto
qed

lemma DaysInYear_bounds: "365 \<le> DaysInYear y" "DaysInYear y \<le> 366"
  by (simp_all add: DaysInYear_def)

lemma DayFromYear_mono: "y \<le> z \<Longrightarrow> DayFromYear y \<le> DayFromYear z"
proof (induction z rule: int_ge_induct)
  case base
  show ?case by simp
next
  case (step i)
  then show ?case using DayFromYear_Suc [of i] DaysInYear_bounds [of i] by linarith
qed

lemma YearFromDay_bounds:
  "DayFromYear (YearFromDay d) \<le> d" "d < DayFromYear (YearFromDay d + 1)"
proof -
  define q where "q = (400 * d) div 146097"
  have p: "0 < (146097::int)" by simp
  have k: "146097 * q \<le> 400 * d" "400 * d < 146097 * q + 146097"
    unfolding q_def by (rule int_div_bounds [OF p])+
  have m: "146097 * (1969 + q) = 287664993 + 146097 * q"
    "146097 * (1972 + q) = 288103284 + 146097 * q" by simp_all
  have lo: "DayFromYear (1969 + q) \<le> d"
    using DayFromYear_bounds(1) [of "1969 + q"] k unfolding m by linarith
  have hi: "d < DayFromYear (1972 + q)"
    using DayFromYear_bounds(2) [of "1972 + q"] k unfolding m by linarith
  have e: "1970 + q + 1 + 1 = 1972 + q" "1970 + q - 1 = 1969 + q" "1969 + q + 1 = 1970 + q"
    by simp_all
  have r: "DayFromYear (YearFromDay d) \<le> d \<and> d < DayFromYear (YearFromDay d + 1)"
    unfolding YearFromDay_def Let_def q_def [symmetric]
    using lo hi by (simp add: e)
  show "DayFromYear (YearFromDay d) \<le> d" "d < DayFromYear (YearFromDay d + 1)"
    using r by simp_all
qed

lemma YearFromDay_unique:
  assumes "DayFromYear y \<le> d" "d < DayFromYear (y + 1)"
  shows "YearFromDay d = y"
proof (rule ccontr)
  assume ne: "YearFromDay d \<noteq> y"
  let ?z = "YearFromDay d"
  have b: "DayFromYear ?z \<le> d" "d < DayFromYear (?z + 1)"
    by (rule YearFromDay_bounds)+
  from ne consider "?z < y" | "y < ?z" by linarith
  then show False
  proof cases
    case 1
    then have "DayFromYear (?z + 1) \<le> DayFromYear y" by (intro DayFromYear_mono) simp
    with b assms show False by linarith
  next
    case 2
    then have "DayFromYear (y + 1) \<le> DayFromYear ?z" by (intro DayFromYear_mono) simp
    with b assms show False by linarith
  qed
qed


lemma DaysInYear_leapDays: "DaysInYear y = 365 + leapDays y"
  by (simp add: leapDays_def DaysInYear_def)

lemma leapDays_range: "leapDays y = 0 \<or> leapDays y = 1"
  by (simp add: leapDays_def)

lemma DayWithinYear_range:
  "0 \<le> DayWithinYear t" "DayWithinYear t < 365 + InLeapYear t"
  using YearFromDay_bounds [of "Day t"] DayFromYear_Suc [of "YearFromTime t"]
  by (simp_all add: DayWithinYear_def YearFromTime_def InLeapYear_def DaysInYear_leapDays)

lemma MonthFromTime_range: "0 \<le> MonthFromTime t \<and> MonthFromTime t \<le> 11"
  by (simp add: MonthFromTime_def Let_def)

lemma DateFromTime_range: "1 \<le> DateFromTime t \<and> DateFromTime t \<le> 31"
proof -
  define d where "d = DayWithinYear t"
  define l where "l = InLeapYear t"
  have r: "0 \<le> d" "d < 365 + l" "l = 0 \<or> l = 1"
    using DayWithinYear_range [of t] leapDays_range [of "YearFromTime t"]
    by (simp_all add: d_def l_def InLeapYear_def)
  show ?thesis
    unfolding DateFromTime_def MonthFromTime_def monthStart_def Let_def
      d_def [symmetric] l_def [symmetric]
    using r by auto
qed

lemma Day_MakeDate:
  assumes "0 \<le> tm" "tm < msPerDay"
  shows "Day (MakeDate D tm) = D" and "TimeWithinDay (MakeDate D tm) = tm"
proof -
  have e: "MakeDate D tm = msPerDay * D + tm" by (simp add: MakeDate_def)
  show "Day (MakeDate D tm) = D"
    unfolding Day_def by (rule int_div_pos_eq [OF e assms])
  show "TimeWithinDay (MakeDate D tm) = tm"
    unfolding TimeWithinDay_def by (rule int_mod_pos_eq [OF e assms])
qed

lemma TimeWithinDay_range: "0 \<le> TimeWithinDay t \<and> TimeWithinDay t < msPerDay"
  by (simp add: TimeWithinDay_def msPerDay_def)

lemma monthStart_bounds:
  assumes "0 \<le> m" "m \<le> 11" "l = 0 \<or> l = 1"
  shows "0 \<le> monthStart l m \<and> monthStart l m \<le> 334 + l"
  using assms by (auto simp: monthStart_def)

lemma MakeDay_simple:
  assumes "0 \<le> m" "m \<le> 11"
  shows "MakeDay y m d = DayFromYear y + monthStart (leapDays y) m + d - 1"
proof -
  have "m div 12 = 0" "m mod 12 = m" using assms by simp_all
  then show ?thesis by (simp add: MakeDay_def Let_def)
qed

lemma YearFromDay_MakeDay:
  assumes "0 \<le> m" "m \<le> 11" "1 \<le> d" "d \<le> 31"
  shows "YearFromDay (MakeDay y m d) = y"
proof (rule YearFromDay_unique)
  have b: "0 \<le> monthStart (leapDays y) m \<and> monthStart (leapDays y) m \<le> 334 + leapDays y"
    by (rule monthStart_bounds [OF assms(1,2) leapDays_range])
  show "DayFromYear y \<le> MakeDay y m d"
    using b assms by (simp add: MakeDay_simple)
  show "MakeDay y m d < DayFromYear (y + 1)"
    using b assms by (simp add: MakeDay_simple DayFromYear_Suc DaysInYear_leapDays)
qed


lemma month_cases:
  fixes m :: int
  assumes "0 \<le> m" "m \<le> 11"
  shows "m = 0 \<or> m = 1 \<or> m = 2 \<or> m = 3 \<or> m = 4 \<or> m = 5 \<or> m = 6
         \<or> m = 7 \<or> m = 8 \<or> m = 9 \<or> m = 10 \<or> m = 11"
  using assms by presburger

lemma monthStart_next:
  assumes "1 \<le> m" "m \<le> 11" "l = leapDays y"
  shows "monthStart l m = monthStart l (m - 1) + daysInMonth y m"
proof -
  from assms(1,2) month_cases [of m]
  consider "m = 1" | "m = 2" | "m = 3" | "m = 4" | "m = 5" | "m = 6"
    | "m = 7" | "m = 8" | "m = 9" | "m = 10" | "m = 11" by fastforce
  then show ?thesis
    by cases (simp_all add: monthStart_def daysInMonth_def assms(3))
qed

lemma monthStart_last: "monthStart l 11 + 31 = 365 + l"
  by (simp add: monthStart_def)

text \<open>The fields of the day \<open>MakeDay y m d\<close> for a day \<open>d\<close> of the month \<open>m\<close> (0 to 11).\<close>

lemma fields_of_day:
  assumes m: "0 \<le> m" "m \<le> 11" and d: "1 \<le> d" "d \<le> daysInMonth y (m + 1)"
    and D: "Day t = MakeDay y m d"
  shows "YearFromTime t = y" and "MonthFromTime t = m" and "DateFromTime t = d"
proof -
  define l where "l = leapDays y"
  have lr: "l = 0 \<or> l = 1" unfolding l_def by (rule leapDays_range)
  have d31: "d \<le> 31" using d(2) by (simp add: daysInMonth_def leapDays_def split: if_splits)
  show y: "YearFromTime t = y"
    unfolding YearFromTime_def D by (rule YearFromDay_MakeDay [OF m d(1) d31])
  have il: "InLeapYear t = l" by (simp add: InLeapYear_def y l_def)
  have dw: "DayWithinYear t = monthStart l m + d - 1"
    by (simp add: DayWithinYear_def y D MakeDay_simple [OF m] l_def)
  from month_cases [OF m]
  consider "m = 0" | "m = 1" | "m = 2" | "m = 3" | "m = 4" | "m = 5" | "m = 6"
    | "m = 7" | "m = 8" | "m = 9" | "m = 10" | "m = 11" by blast
  then have "MonthFromTime t = m \<and> DateFromTime t = d"
  proof cases
    case 1 then show ?thesis using d lr
      by (elim disjE)
        (simp_all add: DateFromTime_def MonthFromTime_def il dw monthStart_def daysInMonth_def
          l_def [symmetric] Let_def)
  next
    case 2 then show ?thesis using d lr
      by (elim disjE)
        (simp_all add: DateFromTime_def MonthFromTime_def il dw monthStart_def daysInMonth_def
          l_def [symmetric] Let_def)
  next
    case 3 then show ?thesis using d lr
      by (elim disjE)
        (simp_all add: DateFromTime_def MonthFromTime_def il dw monthStart_def daysInMonth_def
          l_def [symmetric] Let_def)
  next
    case 4 then show ?thesis using d lr
      by (elim disjE)
        (simp_all add: DateFromTime_def MonthFromTime_def il dw monthStart_def daysInMonth_def
          l_def [symmetric] Let_def)
  next
    case 5 then show ?thesis using d lr
      by (elim disjE)
        (simp_all add: DateFromTime_def MonthFromTime_def il dw monthStart_def daysInMonth_def
          l_def [symmetric] Let_def)
  next
    case 6 then show ?thesis using d lr
      by (elim disjE)
        (simp_all add: DateFromTime_def MonthFromTime_def il dw monthStart_def daysInMonth_def
          l_def [symmetric] Let_def)
  next
    case 7 then show ?thesis using d lr
      by (elim disjE)
        (simp_all add: DateFromTime_def MonthFromTime_def il dw monthStart_def daysInMonth_def
          l_def [symmetric] Let_def)
  next
    case 8 then show ?thesis using d lr
      by (elim disjE)
        (simp_all add: DateFromTime_def MonthFromTime_def il dw monthStart_def daysInMonth_def
          l_def [symmetric] Let_def)
  next
    case 9 then show ?thesis using d lr
      by (elim disjE)
        (simp_all add: DateFromTime_def MonthFromTime_def il dw monthStart_def daysInMonth_def
          l_def [symmetric] Let_def)
  next
    case 10 then show ?thesis using d lr
      by (elim disjE)
        (simp_all add: DateFromTime_def MonthFromTime_def il dw monthStart_def daysInMonth_def
          l_def [symmetric] Let_def)
  next
    case 11 then show ?thesis using d lr
      by (elim disjE)
        (simp_all add: DateFromTime_def MonthFromTime_def il dw monthStart_def daysInMonth_def
          l_def [symmetric] Let_def)
  next
    case 12 then show ?thesis using d lr
      by (elim disjE)
        (simp_all add: DateFromTime_def MonthFromTime_def il dw monthStart_def daysInMonth_def
          l_def [symmetric] Let_def)
  qed
  then show "MonthFromTime t = m" and "DateFromTime t = d" by simp_all
qed

section \<open>Digits and parsing: auxiliary facts\<close>

lemma of_char_digitChar: "n < 10 \<Longrightarrow> (of_char (digitChar n) :: nat) = 48 + n"
  by (simp add: digitChar_def)

lemma digitChar_0: "digitChar 0 = CHR ''0''"
  by code_simp

lemma isDigit_digitChar: "n < 10 \<Longrightarrow> isDigit (digitChar n)"
  by (simp add: isDigit_def of_char_digitChar)

lemma digitValue_digitChar: "n < 10 \<Longrightarrow> digitValue 10 (digitChar n) = Some n"
  by (simp add: digitValue_def of_char_digitChar Let_def)

lemma isDigit_facts:
  assumes "isDigit c"
  shows "\<not> isWhiteSpace c" "c \<noteq> CHR ''-''" "c \<noteq> CHR ''+''" "c \<noteq> CHR ''x''" "c \<noteq> CHR ''X''"
    "digitValue 10 c \<noteq> None"
  using assms by (auto simp: isDigit_def isWhiteSpace_def digitValue_def Let_def)

lemma radixValue_snoc:
  "radixValue r (xs @ [c]) = radixValue r xs * r + (case digitValue r c of None \<Rightarrow> 0 | Some d \<Rightarrow> d)"
  by (simp add: radixValue_def)

lemma digitsOf_digits: "list_all isDigit (digitsOf n)"
proof (induction n rule: digitsOf.induct)
  case (1 n)
  show ?case
  proof (cases "n < 10")
    case True
    then show ?thesis by (subst digitsOf.simps) (simp add: isDigit_digitChar)
  next
    case False
    then show ?thesis using 1 by (subst digitsOf.simps) (simp add: isDigit_digitChar)
  qed
qed

lemma radixValue_digitsOf: "radixValue 10 (digitsOf n) = n"
proof (induction n rule: digitsOf.induct)
  case (1 n)
  show ?case
  proof (cases "n < 10")
    case True
    then show ?thesis
      by (subst digitsOf.simps) (simp add: radixValue_def digitValue_digitChar)
  next
    case False
    then show ?thesis using 1
      by (subst digitsOf.simps) (simp add: radixValue_snoc digitValue_digitChar)
  qed
qed

lemma length_digitsOf_4:
  assumes "1000 \<le> n" "n < 10000"
  shows "length (digitsOf n) = 4"
proof -
  have a: "\<not> n < 10" "\<not> n div 10 < 10" "\<not> n div 10 div 10 < 10" "n div 10 div 10 div 10 < 10"
    using assms by simp_all
  have "digitsOf n = [digitChar (n div 10 div 10 div 10), digitChar (n div 10 div 10 mod 10),
      digitChar (n div 10 mod 10), digitChar (n mod 10)]"
    using a digitsOf.simps [of n] digitsOf.simps [of "n div 10"]
      digitsOf.simps [of "n div 10 div 10"] digitsOf.simps [of "n div 10 div 10 div 10"]
    by simp
  then show ?thesis by simp
qed

lemma pad2_digits:
  assumes "0 \<le> n" "n \<le> 99"
  shows "pad2 n = [digitChar (nat n div 10), digitChar (nat n mod 10)]"
proof (cases "nat n < 10")
  case True
  then have "digitsOf (nat n) = [digitChar (nat n)]" by (subst digitsOf.simps) simp
  moreover have "nat n div 10 = 0" "nat n mod 10 = nat n" using True by simp_all
  ultimately show ?thesis using assms by (simp add: pad2_def padStart_def intToString_def digitChar_0)
next
  case False
  then have "digitsOf (nat n) = digitsOf (nat n div 10) @ [digitChar (nat n mod 10)]"
    by (subst digitsOf.simps) simp
  moreover have "nat n div 10 < 10" using assms by simp
  then have "digitsOf (nat n div 10) = [digitChar (nat n div 10)]"
    by (subst digitsOf.simps) simp
  ultimately show ?thesis using assms by (simp add: pad2_def padStart_def intToString_def)
qed

lemma parseInt_digits:
  assumes "s \<noteq> []" "list_all isDigit s"
  shows "parseInt s = Some (int (radixValue 10 s))"
proof -
  obtain c cs where s: "s = c # cs" using assms(1) by (cases s) auto
  have c: "isDigit c" using assms(2) s by simp
  have ws: "dropWhile isWhiteSpace s = s" using isDigit_facts(1) [OF c] s by simp
  have sg: "(take 1 s = ''-'') = False" "(take 1 s = ''+'') = False"
    using isDigit_facts(2,3) [OF c] s by simp_all
  have hx: "(take 2 s = ''0x'') = False" "(take 2 s = ''0X'') = False"
  proof -
    have hx0: "take 2 s \<noteq> ''0x''" "take 2 s \<noteq> ''0X''"
    proof -
    show "take 2 s \<noteq> ''0x''"
    proof (cases cs)
      case Nil then show ?thesis using s by simp
    next
      case (Cons e es)
      then have "isDigit e" using assms(2) s by simp
      then show ?thesis using isDigit_facts(4) [of e] s Cons by auto
    qed
    show "take 2 s \<noteq> ''0X''"
    proof (cases cs)
      case Nil then show ?thesis using s by simp
    next
      case (Cons e es)
      then have "isDigit e" using assms(2) s by simp
      then show ?thesis using isDigit_facts(5) [of e] s Cons by auto
    qed
    qed
    then show "(take 2 s = ''0x'') = False" "(take 2 s = ''0X'') = False" by simp_all
  qed
  have tw: "takeWhile (\<lambda>c. digitValue 10 c \<noteq> None) s = s"
    using assms(2) isDigit_facts(6) by (induction s) auto
  have "parseInt s = (if s = [] then None else Some (1 * int (radixValue 10 s)))"
    by (simp only: parseInt_def Let_def ws sg hx tw simp_thms if_False)
  then show ?thesis using assms(1) by simp
qed


lemma substring_parts:
  assumes "length a = 4" "length b = 2" "length c = 2"
  shows "substring 0 4 (a @ b @ c) = a" "substring 4 6 (a @ b @ c) = b"
    "substring 6 8 (a @ b @ c) = c"
  using assms by (simp_all add: substring_def Let_def)

lemma intToString_year:
  assumes "1000 \<le> y" "y \<le> 9999"
  shows "length (intToString y) = 4" "list_all isDigit (intToString y)"
    "radixValue 10 (intToString y) = nat y"
  using assms length_digitsOf_4 [of "nat y"] digitsOf_digits [of "nat y"]
    radixValue_digitsOf [of "nat y"]
  by (simp_all add: intToString_def)

lemma pad2_field:
  assumes "0 \<le> n" "n \<le> 99"
  shows "length (pad2 n) = 2" "list_all isDigit (pad2 n)" "radixValue 10 (pad2 n) = nat n"
proof -
  have lt: "nat n div 10 < 10" "nat n mod 10 < 10" using assms by simp_all
  show "length (pad2 n) = 2" by (simp add: pad2_digits [OF assms])
  show "list_all isDigit (pad2 n)"
    by (simp add: pad2_digits [OF assms] isDigit_digitChar lt)
  show "radixValue 10 (pad2 n) = nat n"
    by (simp add: pad2_digits [OF assms] radixValue_def digitValue_digitChar lt)
qed

lemma daysInMonth_range: "28 \<le> daysInMonth y m \<and> daysInMonth y m \<le> 31"
  using leapDays_range [of y] by (auto simp: daysInMonth_def)

lemma DayFromYear_1000: "DayFromYear 1000 = - 354285"
  by (simp add: DayFromYear_def)

lemma DayFromYear_10001: "DayFromYear 10001 = 2933263"
  by (simp add: DayFromYear_def)

lemma TimeClip_MakeDay:
  assumes "1000 \<le> y" "y \<le> 10000" "0 \<le> m" "m \<le> 11" "1 \<le> d" "d \<le> 31"
    "0 \<le> tm" "tm < msPerDay"
  shows "TimeClip (MakeDate (MakeDay y m d) tm) = Some (MakeDate (MakeDay y m d) tm)"
    and "\<bar>MakeDate (MakeDay y m d) tm\<bar> \<le> 8640000000000000 - 2 * msPerDay"
proof -
  have b: "0 \<le> monthStart (leapDays y) m \<and> monthStart (leapDays y) m \<le> 334 + leapDays y"
    by (rule monthStart_bounds [OF assms(3,4) leapDays_range])
  have lo: "DayFromYear 1000 \<le> MakeDay y m d"
    using DayFromYear_mono [OF assms(1)] b assms by (simp add: MakeDay_simple)
  have "MakeDay y m d < DayFromYear (y + 1)"
    using b assms by (simp add: MakeDay_simple DayFromYear_Suc DaysInYear_leapDays)
  moreover have "DayFromYear (y + 1) \<le> DayFromYear 10001"
    using assms(2) by (intro DayFromYear_mono) simp
  ultimately have hi: "MakeDay y m d < DayFromYear 10001" by linarith
  define D where "D = MakeDay y m d"
  have r: "- 354285 \<le> D" "D < 2933263"
    using lo hi by (simp_all add: D_def DayFromYear_1000 DayFromYear_10001)
  have e: "MakeDate D tm = 86400000 * D + tm" by (simp add: MakeDate_def msPerDay_def)
  have t: "0 \<le> tm" "tm < 86400000" using assms(7,8) by (simp_all add: msPerDay_def)
  show "\<bar>MakeDate (MakeDay y m d) tm\<bar> \<le> 8640000000000000 - 2 * msPerDay"
    unfolding D_def [symmetric] e msPerDay_def using r t by linarith
  then show "TimeClip (MakeDate (MakeDay y m d) tm) = Some (MakeDate (MakeDay y m d) tm)"
    by (simp add: TimeClip_def msPerDay_def)
qed

lemma nextDate_valid:
  assumes "1 \<le> m" "m \<le> 12" "1 \<le> d" "d \<le> daysInMonth y m"
    and "nextDate y m d = (y', m', d')"
  shows "1 \<le> m'" "m' \<le> 12" "1 \<le> d'" "d' \<le> daysInMonth y' m'" "y \<le> y'" "y' \<le> y + 1"
  using assms daysInMonth_range [of y "m + 1"] daysInMonth_range [of "y + 1" 1]
  by (auto simp: nextDate_def split: if_splits)

lemma MakeDay_next:
  assumes "1 \<le> m" "m \<le> 12" "1 \<le> d" "d \<le> daysInMonth y m"
    and "nextDate y m d = (y', m', d')"
  shows "MakeDay y (m - 1) (d + 1) = MakeDay y' (m' - 1) d'"
proof -
  consider "d < daysInMonth y m" | "d = daysInMonth y m" "m < 12" | "d = daysInMonth y m" "m = 12"
    using assms(2,4) by linarith
  then show ?thesis
  proof cases
    case 1
    then show ?thesis using assms(5) by (simp add: nextDate_def)
  next
    case 2
    then have n: "y' = y" "m' = m + 1" "d' = 1" using assms(5) by (simp_all add: nextDate_def)
    have "monthStart (leapDays y) m = monthStart (leapDays y) (m - 1) + daysInMonth y m"
      using monthStart_next [of m "leapDays y" y] assms(1) 2(2) by simp
    then show ?thesis using assms(1) 2 n by (simp add: MakeDay_simple)
  next
    case 3
    then have n: "y' = y + 1" "m' = 1" "d' = 1" using assms(5) by (simp_all add: nextDate_def)
    have "daysInMonth y 12 = 31" by (simp add: daysInMonth_def)
    then show ?thesis using 3 n monthStart_last [of "leapDays y"]
      by (simp add: MakeDay_simple DayFromYear_Suc DaysInYear_leapDays monthStart_def)
  qed
qed

lemma calculateNextDay_valid:
  assumes y: "1000 \<le> y" "y \<le> 9999" and m: "1 \<le> m" "m \<le> 12"
    and d: "1 \<le> d" "d \<le> daysInMonth y m"
    and n: "nextDate y m d = (y', m', d')"
  shows "calculateNextDay (ymdString y m d) = Inr (ymdString y' m' d')"
proof -
  have d31: "d \<le> 31" using d(2) daysInMonth_range [of y m] by linarith
  have m99: "0 \<le> m" "m \<le> 99" "0 \<le> d" "d \<le> 99" using m d d31 by simp_all
  note ly = intToString_year [OF y]
  note lm = pad2_field [OF m99(1,2)]
  note ld = pad2_field [OF m99(3,4)]
  have ne: "intToString y \<noteq> []" "pad2 m \<noteq> []" "pad2 d \<noteq> []"
    using ly(1) lm(1) ld(1) by auto
  have py: "parseInt (substring 0 4 (ymdString y m d)) = Some y"
    unfolding ymdString_def substring_parts(1) [OF ly(1) lm(1) ld(1)]
    using parseInt_digits [OF ne(1) ly(2)] ly(3) y by simp
  have pm: "parseInt (substring 4 6 (ymdString y m d)) = Some m"
    unfolding ymdString_def substring_parts(2) [OF ly(1) lm(1) ld(1)]
    using parseInt_digits [OF ne(2) lm(2)] lm(3) m by simp
  have pd: "parseInt (substring 6 8 (ymdString y m d)) = Some d"
    unfolding ymdString_def substring_parts(3) [OF ly(1) lm(1) ld(1)]
    using parseInt_digits [OF ne(3) ld(2)] ld(3) d by simp
  define t0 where "t0 = MakeDate (MakeDay y (m - 1) d) 0"
  have m0: "0 \<le> m - 1" "m - 1 \<le> 11" using m by simp_all
  have z: "(0::int) \<le> 0" "0 < msPerDay" by (simp_all add: msPerDay_def)
  have y10: "y \<le> 10000" using y by simp
  have utc: "Date_UTC (Some y) (Some (m - 1)) (Some d) = Some t0"
    using y TimeClip_MakeDay(1) [OF y(1) y10 m0 d(1) d31 z]
    by (simp add: Date_UTC_def MakeTime_def t0_def)
  have nd: "newDateOfNumber (Some t0) = Some t0"
    using TimeClip_MakeDay(1) [OF y(1) y10 m0 d(1) d31 z]
    by (simp add: newDateOfNumber_def t0_def)
  have D0: "Day t0 = MakeDay y (m - 1) d" "TimeWithinDay t0 = 0"
    unfolding t0_def by (rule Day_MakeDate [OF z])+
  have dm: "d \<le> daysInMonth y (m - 1 + 1)" using d(2) by simp
  note f0 = fields_of_day [OF m0 d(1) dm D0(1)]
  note v = nextDate_valid [OF m d n]
  define t1 where "t1 = MakeDate (MakeDay y' (m' - 1) d') 0"
  have m1: "0 \<le> m' - 1" "m' - 1 \<le> 11" using v by simp_all
  have y1: "1000 \<le> y'" "y' \<le> 10000" using v y by simp_all
  have d1: "d' \<le> 31" using v(4) daysInMonth_range [of y' m'] by linarith
  have sd: "setUTCDate (Some t0) (Some (d + 1)) = Some t1"
    using TimeClip_MakeDay(1) [OF y1 m1 v(3) d1 z]
    by (simp add: setUTCDate_def f0 D0(2) MakeDay_next [OF m d n] t1_def)
  have D1: "Day t1 = MakeDay y' (m' - 1) d'"
    unfolding t1_def by (rule Day_MakeDate [OF z])
  have dm1: "d' \<le> daysInMonth y' (m' - 1 + 1)" using v(4) by simp
  note f1 = fields_of_day [OF m1 v(3) dm1 D1]
  have "calculateNextDay (ymdString y m d)
          = Inr (intToString y' @ padStart 2 CHR ''0'' (intToString (m' - 1 + 1))
                 @ padStart 2 CHR ''0'' (intToString d'))"
    by (simp add: calculateNextDay_def py pm pd numSub_def utc nd getUTCDate_def f0 numAdd_def sd
        getUTCFullYear_def getUTCMonth_def f1 numberToString_def tryCatch_def Let_def)
  then show ?thesis by (simp add: ymdString_def pad2_def)
qed

section \<open>Completions of the core functions\<close>

lemma formatDateTimeForGoogle_Inr:
  "formatDateTimeForGoogle h dt adj =
     Inr (case dt of None \<Rightarrow> None
          | Some s \<Rightarrow> if s = [] then None else formatDateBody h 0 (dateParse h s) s adj)"
  by (simp add: formatDateTimeForGoogle_def tryCatch_def split: option.splits)

lemma formatDateTimeForGoogle_v2_Inr:
  "formatDateTimeForGoogle_v2 h dt adj =
     Inr (case dt of None \<Rightarrow> None
          | Some s \<Rightarrow> if s = [] then None else formatDateBody h 1 (dateParse h s) s adj)"
  by (simp add: formatDateTimeForGoogle_v2_def tryCatch_def split: option.splits)

lemma formatDateTimeForGoogle_bg_Inr:
  "formatDateTimeForGoogle_bg h slack dt adj =
     Inr (case dt of None \<Rightarrow> None
          | Some v \<Rightarrow> if \<not> truthy (Some v) then None
                      else formatDateBody h slack (newDate h v) (toStringJS v) adj)"
  by (simp add: formatDateTimeForGoogle_bg_def tryCatch_def split: option.splits)

lemma formatDateBody_eq:
  "formatDateBody h slack parsed s adj =
     (case parsed of
        None \<Rightarrow> None
      | Some t0 \<Rightarrow>
          (case adjustedDate h slack t0 adj of
             None \<Rightarrow> None
           | Some t \<Rightarrow> Some (if isAllDayString s then localDateString h t else utcDateTimeString t)))"
  by (simp add: formatDateBody_def adjustedDate_def localDateString_def utcDateTimeString_def
      pad2_def Let_def split: option.splits)

lemma calculateNextDay_returns: "\<exists>n. calculateNextDay s = Inr n"
  by (simp add: calculateNextDay_def tryCatch_def Let_def)

lemma extractAndParseJSONFromString_returns:
  "\<exists>v. extractAndParseJSONFromString h raw = Inr v"
  by (auto simp: extractAndParseJSONFromString_def tryCatch_def andThen_def Let_def
      split: option.splits sum.splits)

section \<open>The link builder: auxiliary facts\<close>


lemma digitsOf_nonempty: "digitsOf n \<noteq> []"
  by (subst digitsOf.simps) simp

lemma intToString_nonempty: "intToString i \<noteq> []"
  by (simp add: intToString_def digitsOf_nonempty)

lemma formatDateBody_nonempty: "formatDateBody h k p s adj = Some fs \<Longrightarrow> fs \<noteq> []"
  by (auto simp: formatDateBody_eq localDateString_def utcDateTimeString_def intToString_nonempty
      split: option.splits if_splits)

lemma formatDateTimeForGoogle_truthy:
  "formatDateTimeForGoogle h dt adj = Inr (Some fs) \<Longrightarrow> fs \<noteq> []"
  by (auto simp: formatDateTimeForGoogle_Inr dest: formatDateBody_nonempty split: option.splits if_splits)

lemma formatDateTimeForGoogle_bg_truthy:
  "formatDateTimeForGoogle_bg h k v adj = Inr (Some fs) \<Longrightarrow> fs \<noteq> []"
  by (auto simp: formatDateTimeForGoogle_bg_Inr dest: formatDateBody_nonempty split: option.splits if_splits)

lemma map_of_paramsSet:
  "map_of (paramsSet k v ps) k' = (if k' = k then Some v else map_of ps k')"
proof (induction ps)
  case Nil
  show ?case by simp
next
  case (Cons p ps)
  have f: "map_of (filter (\<lambda>q. fst q \<noteq> k) ps) k' = map_of ps k'" if "k' \<noteq> k"
    using that by (induction ps) auto
  show ?case using Cons f by (cases p) auto
qed

lemma dateParamValue_Testable_no_end:
  assumes "fs \<noteq> []" "calculateNextDay fs = Inr n"
  shows "dateParamValue_Testable (Some fs) None
           = Inr (Some (if length fs = 8 then fs @ ''/'' @ n else fs))"
  using assms by (simp add: dateParamValue_Testable_def truthyString_def andThen_def)

lemma calendarParams_Testable_dates:
  assumes "formatDateTimeForGoogle h (startDate ev) True = Inr fs"
    and "formatDateTimeForGoogle h (endDate ev) True = Inr fe"
    and "dateParamValue_Testable fs fe = Inr (Some d)" and "d \<noteq> []"
  shows "\<exists>ps. calendarParams_Testable h (Some ev) info = Inr (Some ps)
           \<and> map_of ps ''dates'' = Some d
           \<and> map_of ps ''location'' = (if truthyString (location ev) then location ev else None)"
  using assms
  by (auto simp: calendarParams_Testable_def andThen_def Let_def truthyString_def map_of_paramsSet
      split: option.splits)

lemma calendarParams_Testable_null:
  assumes "formatDateTimeForGoogle h (startDate ev) True = Inr fs"
    and "formatDateTimeForGoogle h (endDate ev) True = Inr fe"
    and "dateParamValue_Testable fs fe = Inr None"
  shows "calendarParams_Testable h (Some ev) info = Inr None"
  using assms
  by (simp add: calendarParams_Testable_def andThen_def Let_def truthyString_def)


lemma calendarParams_Testable_cong:
  assumes "title a = title b" "startDate a = startDate b" "location a = location b"
    "description a = description b"
    "formatDateTimeForGoogle h (endDate a) True = formatDateTimeForGoogle h (endDate b) True"
  shows "calendarParams_Testable h (Some a) info = calendarParams_Testable h (Some b) info"
  unfolding calendarParams_Testable_def option.case assms by (rule refl)

lemma dateParamValue_Testable_some:
  assumes "fs \<noteq> []"
  shows "\<exists>d. dateParamValue_Testable (Some fs) fe = Inr (Some d) \<and> d \<noteq> []"
proof -
  obtain n1 where n1: "calculateNextDay fs = Inr n1" using calculateNextDay_returns by blast
  show ?thesis
  proof (cases fe)
    case None
    then show ?thesis using assms n1
      by (simp add: dateParamValue_Testable_def truthyString_def andThen_def)
  next
    case (Some e)
    obtain n2 where n2: "calculateNextDay e = Inr n2" using calculateNextDay_returns by blast
    show ?thesis using assms n1 n2 Some
      by (simp add: dateParamValue_Testable_def truthyString_def andThen_def Let_def)
  qed
qed

lemma dateParamValue_Testable_mixed:
  assumes "fs \<noteq> []" "fe \<noteq> []" "(length fs = 8) \<noteq> (length fe = 8)"
  shows "dateParamValue_Testable (Some fs) (Some fe) = Inr (Some (fs @ ''/'' @ fe))"
  using assms by (auto simp: dateParamValue_Testable_def truthyString_def Let_def)

lemma dateParamValue_bg_timed_allday:
  assumes "fe \<noteq> []" "length fs \<noteq> 8" "length fe = 8"
  shows "dateParamValue_bg fs (Some fe) = Inr (fs @ ''/'' @ fe)"
  using assms by (simp add: dateParamValue_bg_def truthyString_def Let_def)

lemma dateParamValue_bg_allday_timed:
  assumes "fe \<noteq> []" "length fs = 8" "length fe \<noteq> 8" "calculateNextDay fs = Inr n"
  shows "dateParamValue_bg fs (Some fe) = Inr (fs @ ''/'' @ n)"
  using assms by (simp add: dateParamValue_bg_def truthyString_def Let_def andThen_def)

lemma truthy_None: "\<not> truthy None"
  by (simp add: truthy_def)

lemma calendarParams_bg_params:
  assumes "formatDateTimeForGoogle_bg h 0 (getProp obj ''startDate'') True = Inr (Some fs)"
    and "formatDateTimeForGoogle_bg h 0 (getProp obj ''endDate'') True = Inr fe"
    and "dateParamValue_bg fs fe = Inr d" and "d \<noteq> []"
    and "detailsText_bg obj info = Inr dt"
  shows "\<exists>ps. calendarParams_bg h obj info = Inr (Inr ps)
           \<and> map_of ps ''dates'' = Some d
           \<and> map_of ps ''location''
               = (if truthy (getProp obj ''location'') then map_option toStringJS (getProp obj ''location'')
                  else None)"
proof -
  have ne: "fs \<noteq> []" using assms(1) formatDateTimeForGoogle_bg_truthy by blast
  show ?thesis
    using assms ne
    by (cases dt; cases "getProp obj ''location''")
      (simp_all add: calendarParams_bg_def andThen_def Let_def truthyString_def map_of_paramsSet
        truthy_None)
qed

lemma dateParamValue_bg_some:
  assumes "fs \<noteq> []"
  shows "\<exists>d. dateParamValue_bg fs fe = Inr d \<and> d \<noteq> []"
proof -
  obtain n1 where n1: "calculateNextDay fs = Inr n1" using calculateNextDay_returns by blast
  show ?thesis
  proof (cases fe)
    case None
    then show ?thesis using assms n1
      by (simp add: dateParamValue_bg_def truthyString_def andThen_def)
  next
    case (Some e)
    obtain n2 where n2: "calculateNextDay e = Inr n2" using calculateNextDay_returns by blast
    show ?thesis using assms n1 n2 Some
      by (simp add: dateParamValue_bg_def truthyString_def andThen_def Let_def)
  qed
qed

section \<open>The extractor: auxiliary facts\<close>

lemma removeTrailingCommas_id: "\<not> hasTrailingComma s \<Longrightarrow> removeTrailingCommas s = s"
proof (induction s)
  case Nil
  show ?case by simp
next
  case (Cons c cs)
  then have ih: "removeTrailingCommas cs = cs" by simp
  show ?case
  proof (cases "dropWhile isWhiteSpace cs")
    case Nil
    show ?thesis unfolding removeTrailingCommas.simps Nil ih by simp
  next
    case (Cons d ds)
    have "c = CHR '','' \<Longrightarrow> \<not> (d = CHR ''}'' \<or> d = CHR '']'')"
      using Cons.prems Cons by simp
    then show ?thesis unfolding removeTrailingCommas.simps Cons ih by auto
  qed
qed

lemma extractAndParseJSONFromString_slice:
  assumes "raw \<noteq> []" and "indexOf CHR ''{'' raw = Some si"
    and "lastIndexOf CHR ''}'' raw = Some ei" and "si \<le> ei"
  shows "extractAndParseJSONFromString h raw
           = (case jsonParse h (removeTrailingCommas (replaceQuotes (substring si (ei + 1) raw))) of
                Inl e \<Rightarrow> Inr None
              | Inr v \<Rightarrow> Inr (Some v))"
  using assms
  by (simp add: extractAndParseJSONFromString_def Let_def tryCatch_def andThen_def
      split: sum.splits)

lemma replaceQuotes_id: "CHR 0x27 \<notin> set s \<Longrightarrow> replaceQuotes s = s"
  by (induction s) (auto simp: replaceQuotes_def)

lemma indexOf_embedded:
  assumes "c \<notin> set pre"
  shows "indexOf c (pre @ c # rest) = Some (length pre)"
proof -
  have "takeWhile (\<lambda>x. x \<noteq> c) (pre @ c # rest) = pre"
    using assms by (induction pre) auto
  then show ?thesis by (simp add: indexOf_def)
qed

lemma lastIndexOf_embedded:
  assumes "c \<notin> set suf"
  shows "lastIndexOf c (front @ c # suf) = Some (length front)"
proof -
  have "takeWhile (\<lambda>x. x \<noteq> c) (rev suf @ c # rev front) = rev suf"
    using assms by (induction suf rule: rev_induct) auto
  then show ?thesis by (simp add: lastIndexOf_def)
qed

lemma substring_middle:
  "substring (length pre) (length pre + length js) (pre @ js @ suf) = js"
  by (simp add: substring_def Let_def min_def max_def)

section \<open>The date functions: auxiliary facts\<close>

lemma LocalTime_UTC: "LocalTime h (UTC h x) = x"
  by (simp add: LocalTime_def UTC_def)

lemma setFullYear_local:
  assumes "setFullYear h t0 cy = Some t"
  shows "LocalTime h t
           = MakeDate (MakeDay cy (getMonth h t0) (getDate h t0)) (TimeWithinDay (LocalTime h t0))"
  using assms
  by (auto simp: setFullYear_def Let_def TimeClip_def getMonth_def getDate_def LocalTime_UTC
      split: if_splits)

lemma setFullYear_fields:
  assumes "setFullYear h t0 cy = Some t"
  shows "getFullYear h t = cy"
    and "TimeWithinDay (LocalTime h t) = TimeWithinDay (LocalTime h t0)"
    and "getDate h t0 \<le> daysInMonth cy (getMonth h t0 + 1)
           \<Longrightarrow> getMonth h t = getMonth h t0 \<and> getDate h t = getDate h t0"
proof -
  let ?m = "getMonth h t0" and ?d = "getDate h t0" and ?tw = "TimeWithinDay (LocalTime h t0)"
  have m: "0 \<le> ?m" "?m \<le> 11"
    using MonthFromTime_range [of "LocalTime h t0"] by (simp_all add: getMonth_def)
  have d: "1 \<le> ?d" "?d \<le> 31"
    using DateFromTime_range [of "LocalTime h t0"] by (simp_all add: getDate_def)
  have tw: "0 \<le> ?tw" "?tw < msPerDay"
    using TimeWithinDay_range [of "LocalTime h t0"] by simp_all
  note lt = setFullYear_local [OF assms]
  have D: "Day (LocalTime h t) = MakeDay cy ?m ?d"
    unfolding lt by (rule Day_MakeDate(1) [OF tw])
  show "getFullYear h t = cy"
    unfolding getFullYear_def YearFromTime_def D by (rule YearFromDay_MakeDay [OF m d])
  show "TimeWithinDay (LocalTime h t) = ?tw"
    unfolding lt by (rule Day_MakeDate(2) [OF tw])
  assume "?d \<le> daysInMonth cy (?m + 1)"
  from fields_of_day(2,3) [OF m d(1) this D]
  show "getMonth h t = ?m \<and> getDate h t = ?d"
    by (simp add: getMonth_def getDate_def)
qed

lemma setFullYear_valid:
  assumes "1000 \<le> cy" "cy \<le> 9999" "\<bar>localTZA h\<bar> \<le> msPerDay"
  shows "\<exists>t. setFullYear h t0 cy = Some t"
proof -
  let ?m = "MonthFromTime (LocalTime h t0)" and ?d = "DateFromTime (LocalTime h t0)"
    and ?tw = "TimeWithinDay (LocalTime h t0)"
  have m: "0 \<le> ?m" "?m \<le> 11" using MonthFromTime_range [of "LocalTime h t0"] by simp_all
  have d: "1 \<le> ?d" "?d \<le> 31" using DateFromTime_range [of "LocalTime h t0"] by simp_all
  have tw: "0 \<le> ?tw" "?tw < msPerDay" using TimeWithinDay_range [of "LocalTime h t0"] by simp_all
  have c: "cy \<le> 10000" using assms(2) by simp
  have "\<bar>MakeDate (MakeDay cy ?m ?d) ?tw\<bar> \<le> 8640000000000000 - 2 * msPerDay"
    by (rule TimeClip_MakeDay(2) [OF assms(1) c m d tw])
  then have "\<bar>UTC h (MakeDate (MakeDay cy ?m ?d) ?tw)\<bar> \<le> 8640000000000000"
    using assms(3) by (simp add: UTC_def msPerDay_def)
  then show ?thesis by (simp add: setFullYear_def Let_def TimeClip_def)
qed

lemma formatDateTimeForGoogle_parsed:
  assumes "dateParse h s = Some t0" "s \<noteq> []"
  shows "formatDateTimeForGoogle h (Some s) adj
           = Inr (map_option (dateString h s) (adjustedDate h 0 t0 adj))"
    and "formatDateTimeForGoogle_v2 h (Some s) adj
           = Inr (map_option (dateString h s) (adjustedDate h 1 t0 adj))"
  using assms
  by (simp_all add: formatDateTimeForGoogle_Inr formatDateTimeForGoogle_v2_Inr formatDateBody_eq
      dateString_def split: option.splits)

lemma list_all2_digits:
  "length xs = n \<Longrightarrow> list_all isDigit xs \<Longrightarrow> list_all2 (\<lambda>p c. p c) (replicate n isDigit) xs"
  by (induction xs arbitrary: n) auto

lemma isTimedShape_I:
  assumes "length a = 8" "list_all isDigit a" "length b = 6" "list_all isDigit b"
  shows "isTimedShape (a @ ''T'' @ b @ ''Z'')"
proof -
  have pat: "[isDigit, isDigit, isDigit, isDigit, isDigit, isDigit, isDigit, isDigit,
        (\<lambda>c. c = CHR ''T''), isDigit, isDigit, isDigit, isDigit, isDigit, isDigit,
        (\<lambda>c. c = CHR ''Z'')]
      = replicate 8 isDigit @ [(\<lambda>c. c = CHR ''T'')] @ replicate 6 isDigit @ [(\<lambda>c. c = CHR ''Z'')]"
    by (simp add: numeral_eq_Suc)
  have t: "list_all2 (\<lambda>p c. p c) [(\<lambda>c. c = CHR ''T'')] ''T''"
    and z: "list_all2 (\<lambda>p c. p c) [(\<lambda>c. c = CHR ''Z'')] ''Z''" by simp_all
  show ?thesis
    unfolding isTimedShape_def pat
    by (intro list_all2_appendI list_all2_digits assms t z)
qed

lemma time_fields_range:
  "0 \<le> HourFromTime t \<and> HourFromTime t \<le> 99"
  "0 \<le> MinFromTime t \<and> MinFromTime t \<le> 99"
  "0 \<le> SecFromTime t \<and> SecFromTime t \<le> 99"
proof -
  have "0 \<le> (t div msPerHour) mod 24 \<and> (t div msPerHour) mod 24 < 24" by simp
  then show "0 \<le> HourFromTime t \<and> HourFromTime t \<le> 99" by (simp add: HourFromTime_def)
  have "0 \<le> (t div msPerMinute) mod 60 \<and> (t div msPerMinute) mod 60 < 60" by simp
  then show "0 \<le> MinFromTime t \<and> MinFromTime t \<le> 99" by (simp add: MinFromTime_def)
  have "0 \<le> (t div msPerSecond) mod 60 \<and> (t div msPerSecond) mod 60 < 60" by simp
  then show "0 \<le> SecFromTime t \<and> SecFromTime t \<le> 99" by (simp add: SecFromTime_def)
qed

lemma date_fields_pad2:
  "length (pad2 (MonthFromTime t + 1)) = 2 \<and> list_all isDigit (pad2 (MonthFromTime t + 1))"
  "length (pad2 (DateFromTime t)) = 2 \<and> list_all isDigit (pad2 (DateFromTime t))"
proof -
  have m: "0 \<le> MonthFromTime t + 1" "MonthFromTime t + 1 \<le> 99"
    using MonthFromTime_range [of t] by simp_all
  have d: "0 \<le> DateFromTime t" "DateFromTime t \<le> 99"
    using DateFromTime_range [of t] by simp_all
  show "length (pad2 (MonthFromTime t + 1)) = 2 \<and> list_all isDigit (pad2 (MonthFromTime t + 1))"
    using pad2_field(1,2) [OF m] by simp
  show "length (pad2 (DateFromTime t)) = 2 \<and> list_all isDigit (pad2 (DateFromTime t))"
    using pad2_field(1,2) [OF d] by simp
qed

lemma localDateString_shape:
  assumes "1000 \<le> getFullYear h t" "getFullYear h t \<le> 9999"
  shows "isAllDayShape (localDateString h t)"
  using intToString_year(1,2) [OF assms] date_fields_pad2 [of "LocalTime h t"]
  by (simp add: isAllDayShape_def localDateString_def getMonth_def getDate_def)

lemma utcDateTimeString_shape:
  assumes "1000 \<le> YearFromTime t" "YearFromTime t \<le> 9999"
  shows "isTimedShape (utcDateTimeString t)"
proof -
  let ?a = "intToString (YearFromTime t) @ pad2 (MonthFromTime t + 1) @ pad2 (DateFromTime t)"
  let ?b = "pad2 (HourFromTime t) @ pad2 (MinFromTime t) @ pad2 (SecFromTime t)"
  have a: "length ?a = 8" "list_all isDigit ?a"
    using intToString_year(1,2) [OF assms] date_fields_pad2 [of t] by simp_all
  have hr: "0 \<le> HourFromTime t" "HourFromTime t \<le> 99"
    and mr: "0 \<le> MinFromTime t" "MinFromTime t \<le> 99"
    and sr: "0 \<le> SecFromTime t" "SecFromTime t \<le> 99"
    using time_fields_range [of t] by simp_all
  have b: "length ?b = 6" "list_all isDigit ?b"
    using pad2_field(1,2) [OF hr] pad2_field(1,2) [OF mr] pad2_field(1,2) [OF sr] by simp_all
  have "utcDateTimeString t = ?a @ ''T'' @ ?b @ ''Z''"
    by (simp add: utcDateTimeString_def)
  then show ?thesis using isTimedShape_I [OF a b] by simp
qed

section \<open>Claims\<close>

text \<open>
  C10. With \<open>adjustPastYears\<close> false (and the time zone offset fixed by the host),
  \<open>formatDateTimeForGoogle\<close> does not depend on the system clock: two runs on the same input
  under different clocks return the same result. The same holds for the untyped copy of
  src/background/index.ts and for the copy with the threshold \<open>currentYear - 1\<close>.
\<close>

theorem C10_clock_independent:
  "formatDateTimeForGoogle (h\<lparr>now := clock1\<rparr>) dt False
     = formatDateTimeForGoogle (h\<lparr>now := clock2\<rparr>) dt False
   \<and> formatDateTimeForGoogle_bg (h\<lparr>now := clock1\<rparr>) slack v False
     = formatDateTimeForGoogle_bg (h\<lparr>now := clock2\<rparr>) slack v False
   \<and> formatDateTimeForGoogle_v2 (h\<lparr>now := clock1\<rparr>) dt False
     = formatDateTimeForGoogle_v2 (h\<lparr>now := clock2\<rparr>) dt False"
proof -
  have body: "formatDateBody (h\<lparr>now := clock1\<rparr>) k p s False
      = formatDateBody (h\<lparr>now := clock2\<rparr>) k p s False" for k p s
    by (simp add: formatDateBody_eq adjustedDate_def localDateString_def getFullYear_def
        getMonth_def getDate_def LocalTime_def split: option.splits)
  have np: "newDate (h\<lparr>now := clock1\<rparr>) x = newDate (h\<lparr>now := clock2\<rparr>) x" for x
    by (cases x) (simp_all add: newDate_def)
  show ?thesis
    by (cases dt; cases v)
      (simp_all add: formatDateTimeForGoogle_Inr formatDateTimeForGoogle_bg_Inr
        formatDateTimeForGoogle_v2_Inr body np)
qed

theorem C10_clock_independent_witness:
  "formatDateTimeForGoogle ((isoHost 0 0)\<lparr>now := 1718452800000\<rparr>) (Some ''2020-03-30T12:15:00'') False
     = formatDateTimeForGoogle ((isoHost 0 0)\<lparr>now := 4102444800000\<rparr>) (Some ''2020-03-30T12:15:00'') False"
  using C10_clock_independent [where h = "isoHost 0 0" and ?clock1.0 = 1718452800000
      and ?clock2.0 = 4102444800000 and dt = "Some ''2020-03-30T12:15:00''"]
  by simp

text \<open>
  C9. On every string input the three core functions return a value and throw nothing:
  \<open>extractAndParseJSONFromString\<close> (also when \<open>JSON.parse\<close> throws), \<open>formatDateTimeForGoogle\<close>
  (also on \<open>null\<close>) and \<open>calculateNextDay\<close>.
\<close>

theorem C9_core_never_throws:
  "(\<exists>v. extractAndParseJSONFromString h raw = Inr v)
   \<and> (\<exists>v. formatDateTimeForGoogle h dt adj = Inr v)
   \<and> (\<exists>v. calculateNextDay s = Inr v)"
  using extractAndParseJSONFromString_returns [of h raw] calculateNextDay_returns [of s]
  by (simp add: formatDateTimeForGoogle_Inr)

text \<open>
  C5. \<open>createGoogleCalendarLink_Testable\<close> returns \<open>null\<close> exactly when the start date
  formats to \<open>null\<close> (for the \<open>null\<close> object, which has no start date, it returns \<open>null\<close>
  too). An end date that formats to \<open>null\<close> gives the result of the same event without an
  end date: a single all-day range \<open>start/nextDay(start)\<close> for an 8-character start and the
  bare start otherwise.
\<close>

theorem C5_start_date_is_the_only_failure:
  "createGoogleCalendarLink_Testable h None info = Inr None
   \<and> ((createGoogleCalendarLink_Testable h (Some ev) info = Inr None)
        = (formatDateTimeForGoogle h (startDate ev) True = Inr None))
   \<and> (formatDateTimeForGoogle h (endDate ev) True = Inr None \<longrightarrow>
        createGoogleCalendarLink_Testable h (Some ev) info
          = createGoogleCalendarLink_Testable h (Some (ev\<lparr>endDate := None\<rparr>)) info
        \<and> (\<forall>fs. formatDateTimeForGoogle h (startDate ev) True = Inr (Some fs) \<longrightarrow>
              (\<exists>ps n. calendarParams_Testable h (Some ev) info = Inr (Some ps)
                 \<and> calculateNextDay fs = Inr n
                 \<and> map_of ps ''dates'' = Some (if length fs = 8 then fs @ ''/'' @ n else fs))))"
proof (intro conjI impI allI)
  show "createGoogleCalendarLink_Testable h None info = Inr None"
    by (simp add: createGoogleCalendarLink_Testable_def calendarParams_Testable_def andThen_def)
next
  obtain fs0 where fs0: "formatDateTimeForGoogle h (startDate ev) True = Inr fs0"
    by (simp add: formatDateTimeForGoogle_Inr)
  obtain fe0 where fe0: "formatDateTimeForGoogle h (endDate ev) True = Inr fe0"
    by (simp add: formatDateTimeForGoogle_Inr)
  show "(createGoogleCalendarLink_Testable h (Some ev) info = Inr None)
          = (formatDateTimeForGoogle h (startDate ev) True = Inr None)"
  proof (cases fs0)
    case None
    have "dateParamValue_Testable None fe0 = Inr None"
      by (simp add: dateParamValue_Testable_def)
    then have "calendarParams_Testable h (Some ev) info = Inr None"
      using calendarParams_Testable_null [OF fs0 fe0] None by simp
    then show ?thesis using fs0 None
      by (simp add: createGoogleCalendarLink_Testable_def andThen_def)
  next
    case (Some fs)
    then have ne: "fs \<noteq> []" using fs0 formatDateTimeForGoogle_truthy by blast
    obtain d where d: "dateParamValue_Testable (Some fs) fe0 = Inr (Some d)" "d \<noteq> []"
      using dateParamValue_Testable_some [OF ne] by blast
    obtain ps where "calendarParams_Testable h (Some ev) info = Inr (Some ps)"
      using calendarParams_Testable_dates [OF fs0 fe0, of d info] d Some by blast
    then show ?thesis using fs0 Some
      by (simp add: createGoogleCalendarLink_Testable_def andThen_def)
  qed
next
  assume e: "formatDateTimeForGoogle h (endDate ev) True = Inr None"
  have e': "formatDateTimeForGoogle h None True = Inr None"
    by (simp add: formatDateTimeForGoogle_Inr)
  have "calendarParams_Testable h (Some ev) info
          = calendarParams_Testable h (Some (ev\<lparr>endDate := None\<rparr>)) info"
    by (rule calendarParams_Testable_cong) (simp_all add: e e')
  then show "createGoogleCalendarLink_Testable h (Some ev) info
          = createGoogleCalendarLink_Testable h (Some (ev\<lparr>endDate := None\<rparr>)) info"
    by (simp add: createGoogleCalendarLink_Testable_def)
next
  fix fs
  assume e: "formatDateTimeForGoogle h (endDate ev) True = Inr None"
    and s: "formatDateTimeForGoogle h (startDate ev) True = Inr (Some fs)"
  have ne: "fs \<noteq> []" using s formatDateTimeForGoogle_truthy by blast
  obtain n where n: "calculateNextDay fs = Inr n" using calculateNextDay_returns by blast
  have d: "dateParamValue_Testable (Some fs) None
             = Inr (Some (if length fs = 8 then fs @ ''/'' @ n else fs))"
    by (rule dateParamValue_Testable_no_end [OF ne n])
  have "(if length fs = 8 then fs @ ''/'' @ n else fs) \<noteq> []" using ne by simp
  from calendarParams_Testable_dates [OF s e d this, of info] n
  show "\<exists>ps n. calendarParams_Testable h (Some ev) info = Inr (Some ps)
          \<and> calculateNextDay fs = Inr n
          \<and> map_of ps ''dates'' = Some (if length fs = 8 then fs @ ''/'' @ n else fs)"
    by blast
qed

theorem C5_start_date_is_the_only_failure_witness:
  "formatDateTimeForGoogle exampleHost (Some ''soon'') True = Inr None
   \<and> createGoogleCalendarLink_Testable exampleHost
        (Some \<lparr>title = Some ''Christmas'', startDate = Some ''2024-12-25'', endDate = Some ''soon'',
               location = None, description = None\<rparr>) []
      = createGoogleCalendarLink_Testable exampleHost
        (Some \<lparr>title = Some ''Christmas'', startDate = Some ''2024-12-25'', endDate = None,
               location = None, description = None\<rparr>) []
   \<and> createGoogleCalendarLink_Testable exampleHost
        (Some \<lparr>title = Some ''Christmas'', startDate = Some ''2024-12-25'', endDate = Some ''soon'',
               location = None, description = None\<rparr>) []
      = Inr (Some ''https://www.google.com/calendar/event?action=TEMPLATE&text=Christmas&dates=20241225%2F20241226'')
   \<and> createGoogleCalendarLink_Testable exampleHost
        (Some \<lparr>title = Some ''Christmas'', startDate = Some ''soon'', endDate = Some ''2024-12-25'',
               location = None, description = None\<rparr>) [] = Inr None"
proof -
  have e: "formatDateTimeForGoogle exampleHost (Some ''soon'') True = Inr None"
    by code_simp
  have v: "createGoogleCalendarLink_Testable exampleHost
        (Some \<lparr>title = Some ''Christmas'', startDate = Some ''2024-12-25'', endDate = None,
               location = None, description = None\<rparr>) []
      = Inr (Some ''https://www.google.com/calendar/event?action=TEMPLATE&text=Christmas&dates=20241225%2F20241226'')"
    by code_simp
  show ?thesis
    using e v
      C5_start_date_is_the_only_failure [of exampleHost "[]"
        "\<lparr>title = Some ''Christmas'', startDate = Some ''2024-12-25'', endDate = Some ''soon'',
          location = None, description = None\<rparr>"]
      C5_start_date_is_the_only_failure [of exampleHost "[]"
        "\<lparr>title = Some ''Christmas'', startDate = Some ''soon'', endDate = Some ''2024-12-25'',
          location = None, description = None\<rparr>"]
    by simp
qed

text \<open>
  C2 (as amended). For an event whose formatted start and end dates have different
  shapes, \<open>createGoogleCalendarLink_Testable\<close> of src/utils.ts uses the formatted end
  directly: the range is \<open>start/end\<close>, for both mixes. The handler of
  src/background/index.ts does so for a timed start with an all-day end only; for an
  all-day start with a timed end it discards the end and gives the single all-day range
  \<open>start/nextDay(start)\<close>.
\<close>

theorem C2_mixed_shapes_amended:
  "(formatDateTimeForGoogle h (startDate ev) True = Inr (Some fs)
      \<and> formatDateTimeForGoogle h (endDate ev) True = Inr (Some fe)
      \<and> (length fs = 8) \<noteq> (length fe = 8)
     \<longrightarrow> (\<exists>ps. calendarParams_Testable h (Some ev) info = Inr (Some ps)
            \<and> map_of ps ''dates'' = Some (fs @ ''/'' @ fe)))
   \<and> (formatDateTimeForGoogle_bg h 0 (getProp obj ''startDate'') True = Inr (Some gs)
      \<and> formatDateTimeForGoogle_bg h 0 (getProp obj ''endDate'') True = Inr (Some ge)
      \<and> detailsText_bg obj info = Inr dt
     \<longrightarrow> (length gs \<noteq> 8 \<and> length ge = 8
            \<longrightarrow> (\<exists>ps. calendarParams_bg h obj info = Inr (Inr ps)
                   \<and> map_of ps ''dates'' = Some (gs @ ''/'' @ ge)))
         \<and> (length gs = 8 \<and> length ge \<noteq> 8
            \<longrightarrow> (\<exists>ps n. calendarParams_bg h obj info = Inr (Inr ps)
                   \<and> calculateNextDay gs = Inr n
                   \<and> map_of ps ''dates'' = Some (gs @ ''/'' @ n))))"
proof (intro conjI impI)
  assume a: "formatDateTimeForGoogle h (startDate ev) True = Inr (Some fs)
      \<and> formatDateTimeForGoogle h (endDate ev) True = Inr (Some fe)
      \<and> (length fs = 8) \<noteq> (length fe = 8)"
  then have ne: "fs \<noteq> []" "fe \<noteq> []" using formatDateTimeForGoogle_truthy by blast+
  have d: "dateParamValue_Testable (Some fs) (Some fe) = Inr (Some (fs @ ''/'' @ fe))"
    using dateParamValue_Testable_mixed [OF ne] a by simp
  have "fs @ ''/'' @ fe \<noteq> []" by simp
  from calendarParams_Testable_dates [OF _ _ d this, of h ev info] a
  show "\<exists>ps. calendarParams_Testable h (Some ev) info = Inr (Some ps)
            \<and> map_of ps ''dates'' = Some (fs @ ''/'' @ fe)"
    by blast
next
  assume a: "formatDateTimeForGoogle_bg h 0 (getProp obj ''startDate'') True = Inr (Some gs)
      \<and> formatDateTimeForGoogle_bg h 0 (getProp obj ''endDate'') True = Inr (Some ge)
      \<and> detailsText_bg obj info = Inr dt"
    and b: "length gs \<noteq> 8 \<and> length ge = 8"
  have ne: "ge \<noteq> []" using a formatDateTimeForGoogle_bg_truthy by blast
  have d: "dateParamValue_bg gs (Some ge) = Inr (gs @ ''/'' @ ge)"
    using dateParamValue_bg_timed_allday [OF ne] b by simp
  have "gs @ ''/'' @ ge \<noteq> []" by simp
  from calendarParams_bg_params [OF _ _ d this, of h obj info dt] a
  show "\<exists>ps. calendarParams_bg h obj info = Inr (Inr ps)
           \<and> map_of ps ''dates'' = Some (gs @ ''/'' @ ge)"
    by blast
next
  assume a: "formatDateTimeForGoogle_bg h 0 (getProp obj ''startDate'') True = Inr (Some gs)
      \<and> formatDateTimeForGoogle_bg h 0 (getProp obj ''endDate'') True = Inr (Some ge)
      \<and> detailsText_bg obj info = Inr dt"
    and b: "length gs = 8 \<and> length ge \<noteq> 8"
  have ne: "ge \<noteq> []" using a formatDateTimeForGoogle_bg_truthy by blast
  obtain n where n: "calculateNextDay gs = Inr n" using calculateNextDay_returns by blast
  have d: "dateParamValue_bg gs (Some ge) = Inr (gs @ ''/'' @ n)"
    using dateParamValue_bg_allday_timed [OF ne _ _ n] b by simp
  have "gs @ ''/'' @ n \<noteq> []" by simp
  from calendarParams_bg_params [OF _ _ d this, of h obj info dt] a n
  show "\<exists>ps n. calendarParams_bg h obj info = Inr (Inr ps)
           \<and> calculateNextDay gs = Inr n
           \<and> map_of ps ''dates'' = Some (gs @ ''/'' @ n)"
    by blast
qed

theorem C2_mixed_shapes_amended_witness:
  "(\<exists>ps. calendarParams_Testable exampleHost (Some allDayTimedEvent) [] = Inr (Some ps)
       \<and> map_of ps ''dates'' = Some ''20241225/20241227T100000Z'')
   \<and> (\<exists>ps. calendarParams_bg exampleHost timedAllDayObject [] = Inr (Inr ps)
       \<and> map_of ps ''dates'' = Some ''20241225T090000Z/20241227'')
   \<and> (\<exists>ps n. calendarParams_bg exampleHost allDayTimedObject [] = Inr (Inr ps)
       \<and> calculateNextDay ''20241225'' = Inr n
       \<and> map_of ps ''dates'' = Some (''20241225'' @ ''/'' @ n))"
proof -
  have u1: "formatDateTimeForGoogle exampleHost (startDate allDayTimedEvent) True
              = Inr (Some ''20241225'')"
    by code_simp
  have u2: "formatDateTimeForGoogle exampleHost (endDate allDayTimedEvent) True
              = Inr (Some ''20241227T100000Z'')"
    by code_simp
  have a1: "formatDateTimeForGoogle_bg exampleHost 0 (getProp timedAllDayObject ''startDate'') True
              = Inr (Some ''20241225T090000Z'')"
    by code_simp
  have a2: "formatDateTimeForGoogle_bg exampleHost 0 (getProp timedAllDayObject ''endDate'') True
              = Inr (Some ''20241227'')"
    by code_simp
  have a3: "detailsText_bg timedAllDayObject [] = Inr None"
    by code_simp
  have b1: "formatDateTimeForGoogle_bg exampleHost 0 (getProp allDayTimedObject ''startDate'') True
              = Inr (Some ''20241225'')"
    by code_simp
  have b2: "formatDateTimeForGoogle_bg exampleHost 0 (getProp allDayTimedObject ''endDate'') True
              = Inr (Some ''20241227T100000Z'')"
    by code_simp
  have b3: "detailsText_bg allDayTimedObject [] = Inr None"
    by code_simp
  show ?thesis
    using u1 u2 a1 a2 a3 b1 b2 b3
      C2_mixed_shapes_amended [where h = exampleHost and ev = allDayTimedEvent
        and fs = "''20241225''" and fe = "''20241227T100000Z''" and info = "[]"
        and obj = timedAllDayObject and gs = "''20241225T090000Z''" and ge = "''20241227''"
        and dt = None]
      C2_mixed_shapes_amended [where h = exampleHost and ev = allDayTimedEvent
        and fs = "''20241225''" and fe = "''20241227T100000Z''" and info = "[]"
        and obj = allDayTimedObject and gs = "''20241225''" and ge = "''20241227T100000Z''"
        and dt = None]
    by simp
qed

text \<open>The claim as stated fails in the handler: the model answers with an all-day start
  and a timed end two days later, and the link runs from the start to the day after the
  start; the end is discarded.\<close>

theorem C2_mixed_shapes_counterexample:
  "formatDateTimeForGoogle_bg exampleHost 0 (Some (JString ''2024-12-25'')) True
     = Inr (Some ''20241225'')
   \<and> formatDateTimeForGoogle_bg exampleHost 0 (Some (JString ''2024-12-27T10:00:00'')) True
     = Inr (Some ''20241227T100000Z'')
   \<and> onDone exampleHost []
        ''{'title': 'Trip', 'startDate': '2024-12-25', 'endDate': '2024-12-27T10:00:00'}''
     = Inr (OpenedWindow
         ''https://www.google.com/calendar/event?action=TEMPLATE&text=Trip&dates=20241225%2F20241226'')"
  by code_simp

text \<open>
  C8 (as amended). In \<open>createGoogleCalendarLink_Testable\<close> the location is a string or
  \<open>null\<close> by its type: a non-empty string is the \<open>location\<close> parameter, an empty or \<open>null\<close>
  location sets none. The handler of src/background/index.ts does the same for a string,
  \<open>null\<close> or missing location, but a structured location is not omitted: it is truthy,
  and its string conversion \<open>[object Object]\<close> becomes the parameter.
\<close>

theorem C8_location_amended:
  "(formatDateTimeForGoogle h (startDate ev) True = Inr (Some fs)
     \<longrightarrow> (\<exists>ps. calendarParams_Testable h (Some ev) info = Inr (Some ps)
            \<and> map_of ps ''location'' = (if truthyString (location ev) then location ev else None)))
   \<and> (formatDateTimeForGoogle_bg h 0 (getProp obj ''startDate'') True = Inr (Some gs)
      \<and> detailsText_bg obj info = Inr dt
     \<longrightarrow> (\<exists>ps. calendarParams_bg h obj info = Inr (Inr ps)
            \<and> map_of ps ''location''
                = (case getProp obj ''location'' of
                     None \<Rightarrow> None
                   | Some JNull \<Rightarrow> None
                   | Some (JString s) \<Rightarrow> if s = [] then None else Some s
                   | Some (JObject kvs) \<Rightarrow> Some ''[object Object]''
                   | Some v \<Rightarrow> if truthy (Some v) then Some (toStringJS v) else None)))"
proof (intro conjI impI)
  assume a: "formatDateTimeForGoogle h (startDate ev) True = Inr (Some fs)"
  then have ne: "fs \<noteq> []" using formatDateTimeForGoogle_truthy by blast
  obtain fe where fe: "formatDateTimeForGoogle h (endDate ev) True = Inr fe"
    by (simp add: formatDateTimeForGoogle_Inr)
  obtain d where d: "dateParamValue_Testable (Some fs) fe = Inr (Some d)" "d \<noteq> []"
    using dateParamValue_Testable_some [OF ne] by blast
  from calendarParams_Testable_dates [OF a fe d, of info]
  show "\<exists>ps. calendarParams_Testable h (Some ev) info = Inr (Some ps)
            \<and> map_of ps ''location'' = (if truthyString (location ev) then location ev else None)"
    by blast
next
  assume a: "formatDateTimeForGoogle_bg h 0 (getProp obj ''startDate'') True = Inr (Some gs)
      \<and> detailsText_bg obj info = Inr dt"
  obtain ge where ge: "formatDateTimeForGoogle_bg h 0 (getProp obj ''endDate'') True = Inr ge"
    by (simp add: formatDateTimeForGoogle_bg_Inr)
  have ne: "gs \<noteq> []" using a formatDateTimeForGoogle_bg_truthy by blast
  obtain d where d: "dateParamValue_bg gs ge = Inr d" "d \<noteq> []"
    using dateParamValue_bg_some [OF ne] by blast
  obtain ps where ps: "calendarParams_bg h obj info = Inr (Inr ps)"
    "map_of ps ''location''
       = (if truthy (getProp obj ''location'') then map_option toStringJS (getProp obj ''location'')
          else None)"
    using calendarParams_bg_params [OF _ ge d, of info dt] a by blast
  have "map_of ps ''location''
          = (case getProp obj ''location'' of
               None \<Rightarrow> None
             | Some JNull \<Rightarrow> None
             | Some (JString s) \<Rightarrow> if s = [] then None else Some s
             | Some (JObject kvs) \<Rightarrow> Some ''[object Object]''
             | Some v \<Rightarrow> if truthy (Some v) then Some (toStringJS v) else None)"
    unfolding ps(2) by (simp add: truthy_def split: option.splits json.splits)
  with ps(1) show "\<exists>ps. calendarParams_bg h obj info = Inr (Inr ps)
            \<and> map_of ps ''location''
                = (case getProp obj ''location'' of
                     None \<Rightarrow> None
                   | Some JNull \<Rightarrow> None
                   | Some (JString s) \<Rightarrow> if s = [] then None else Some s
                   | Some (JObject kvs) \<Rightarrow> Some ''[object Object]''
                   | Some v \<Rightarrow> if truthy (Some v) then Some (toStringJS v) else None)"
    by blast
qed

theorem C8_location_amended_witness:
  "(\<exists>ps. calendarParams_Testable exampleHost (Some allDayTimedEvent) [] = Inr (Some ps)
       \<and> map_of ps ''location'' = Some ''Room 1'')
   \<and> (\<exists>ps. calendarParams_bg exampleHost structuredLocationObject [] = Inr (Inr ps)
       \<and> map_of ps ''location'' = Some ''[object Object]'')
   \<and> (\<exists>ps. calendarParams_bg exampleHost allDayTimedObject [] = Inr (Inr ps)
       \<and> map_of ps ''location'' = None)"
proof -
  have u1: "formatDateTimeForGoogle exampleHost (startDate allDayTimedEvent) True
              = Inr (Some ''20241225'')"
    by code_simp
  have u2: "truthyString (location allDayTimedEvent)" "location allDayTimedEvent = Some ''Room 1''"
    by code_simp+
  have a1: "formatDateTimeForGoogle_bg exampleHost 0 (getProp structuredLocationObject ''startDate'') True
              = Inr (Some ''20241225'')"
    by code_simp
  have a2: "detailsText_bg structuredLocationObject [] = Inr None"
    by code_simp
  have a3: "getProp structuredLocationObject ''location'' = Some (JObject [(''room'', JNumber 7)])"
    by code_simp
  have b1: "formatDateTimeForGoogle_bg exampleHost 0 (getProp allDayTimedObject ''startDate'') True
              = Inr (Some ''20241225'')"
    by code_simp
  have b2: "detailsText_bg allDayTimedObject [] = Inr None"
    by code_simp
  have b3: "getProp allDayTimedObject ''location'' = None"
    by code_simp
  show ?thesis
    using u1 u2 a1 a2 a3 b1 b2 b3
      C8_location_amended [where h = exampleHost and ev = allDayTimedEvent
        and fs = "''20241225''" and info = "[]" and obj = structuredLocationObject
        and gs = "''20241225''" and dt = None]
      C8_location_amended [where h = exampleHost and ev = allDayTimedEvent
        and fs = "''20241225''" and info = "[]" and obj = allDayTimedObject
        and gs = "''20241225''" and dt = None]
    by simp
qed

text \<open>The claim as stated fails in the handler: a structured location is embedded as the
  string \<open>[object Object]\<close>.\<close>

theorem C8_location_counterexample:
  "onDone exampleHost []
     ''{'title': 'Trip', 'startDate': '2024-12-25', 'location': {'room': 7}}''
   = Inr (OpenedWindow
       ''https://www.google.com/calendar/event?action=TEMPLATE&text=Trip&dates=20241225%2F20241226&location=%5Bobject+Object%5D'')"
  by code_simp

text \<open>
  C4 (as amended). When the slice parses to the empty object, as for the input \<open>{}\<close>, the
  extractor returns the empty object and not \<open>null\<close>. The handler of the done event then
  treats the empty object as it treats a failed extraction: both end in the same error,
  "Could not understand the response from AI. Please try again or rephrase."
\<close>

theorem C4_empty_object_amended:
  "(jsonParse h ''{}'' = Inr (JObject [])
      \<longrightarrow> extractAndParseJSONFromString h ''{}'' = Inr (Some (JObject [])))
   \<and> (extractAndParseJSONFromString h raw = Inr (Some (JObject []))
        \<or> extractAndParseJSONFromString h raw = Inr None
      \<longrightarrow> onDone h info raw
            = Inr (ProcessingError
                ''Could not understand the response from AI. Please try again or rephrase.''))"
proof (intro conjI impI)
  assume p: "jsonParse h ''{}'' = Inr (JObject [])"
  have i: "indexOf CHR ''{'' ''{}'' = Some 0" "lastIndexOf CHR ''}'' ''{}'' = Some 1"
    by (simp_all add: indexOf_def lastIndexOf_def)
  have s: "substring 0 (Suc (Suc 0)) ''{}'' = ''{}''" by (simp add: substring_def)
  show "extractAndParseJSONFromString h ''{}'' = Inr (Some (JObject []))"
    by (simp add: extractAndParseJSONFromString_def i s replaceQuotes_def p tryCatch_def
        andThen_def)
next
  assume "extractAndParseJSONFromString h raw = Inr (Some (JObject []))
        \<or> extractAndParseJSONFromString h raw = Inr None"
  then show "onDone h info raw
            = Inr (ProcessingError
                ''Could not understand the response from AI. Please try again or rephrase.'')"
    by (auto simp: onDone_def andThen_def keyCount_def)
qed

theorem C4_empty_object_amended_witness:
  "extractAndParseJSONFromString exampleHost ''{}'' = Inr (Some (JObject []))
   \<and> extractAndParseJSONFromString exampleHost ''no braces here'' = Inr None
   \<and> onDone exampleHost ''Lunch?'' ''{}''
      = Inr (ProcessingError
          ''Could not understand the response from AI. Please try again or rephrase.'')
   \<and> onDone exampleHost ''Lunch?'' ''no braces here''
      = Inr (ProcessingError
          ''Could not understand the response from AI. Please try again or rephrase.'')"
proof -
  have p: "jsonParse exampleHost ''{}'' = Inr (JObject [])"
    by code_simp
  have n: "extractAndParseJSONFromString exampleHost ''no braces here'' = Inr None"
    by code_simp
  show ?thesis
    using p n
      C4_empty_object_amended [of exampleHost "''{}''" "''Lunch?''"]
      C4_empty_object_amended [of exampleHost "''no braces here''" "''Lunch?''"]
    by simp
qed

text \<open>The claim as stated fails: the outcome of the pipeline for the empty object is the
  outcome for a text without JSON.\<close>

theorem C4_empty_object_counterexample:
  "extractAndParseJSONFromString exampleHost ''{}'' = Inr (Some (JObject []))
   \<and> extractAndParseJSONFromString exampleHost ''no braces here'' = Inr None
   \<and> onDone exampleHost ''Lunch?'' ''{}'' = onDone exampleHost ''Lunch?'' ''no braces here''"
  by code_simp

text \<open>
  C6 (as amended). Let \<open>js\<close> be a JSON text that starts with \<open>{\<close> and ends with \<open>}\<close>, holds
  no apostrophe and no comma followed by white space and a closing brace or bracket, and
  that \<open>JSON.parse\<close> reads as \<open>obj\<close>. Embedded in a prefix without \<open>{\<close> and a suffix without
  \<open>}\<close>, the extractor returns \<open>obj\<close>.
\<close>

theorem C6_embedded_object_amended:
  assumes "CHR ''{'' \<notin> set pre" and "CHR ''}'' \<notin> set suf"
    and "js = CHR ''{'' # body @ [CHR ''}'']"
    and "CHR 0x27 \<notin> set js" and "\<not> hasTrailingComma js"
    and "jsonParse h js = Inr obj"
  shows "extractAndParseJSONFromString h (pre @ js @ suf) = Inr (Some obj)"
proof -
  let ?raw = "pre @ js @ suf"
  have si: "indexOf CHR ''{'' ?raw = Some (length pre)"
    using indexOf_embedded [OF assms(1), of "body @ [CHR ''}''] @ suf"] assms(3) by simp
  have "lastIndexOf CHR ''}'' ((pre @ CHR ''{'' # body) @ CHR ''}'' # suf)
          = Some (length (pre @ CHR ''{'' # body))"
    by (rule lastIndexOf_embedded [OF assms(2)])
  then have ei: "lastIndexOf CHR ''}'' ?raw = Some (length pre + length js - 1)"
    using assms(3) by simp
  have len: "length pre + length js - 1 + 1 = length pre + length js"
    using assms(3) by simp
  have sub: "substring (length pre) (length pre + length js - 1 + 1) ?raw = js"
    unfolding len by (rule substring_middle)
  have le: "length pre \<le> length pre + length js - 1" using assms(3) by simp
  have ne: "?raw \<noteq> []" using assms(3) by simp
  have "extractAndParseJSONFromString h ?raw
          = (case jsonParse h (removeTrailingCommas (replaceQuotes
                (substring (length pre) (length pre + length js - 1 + 1) ?raw))) of
               Inl e \<Rightarrow> Inr None
             | Inr v \<Rightarrow> Inr (Some v))"
    by (rule extractAndParseJSONFromString_slice [OF ne si ei le])
  also have "\<dots> = Inr (Some obj)"
    unfolding sub replaceQuotes_id [OF assms(4)] removeTrailingCommas_id [OF assms(5)] assms(6)
    by simp
  finally show ?thesis .
qed

theorem C6_embedded_object_amended_witness:
  "extractAndParseJSONFromString exampleHost
     (''Sure, here it is: '' @ (''{'' @ dq ''title'' @ '': '' @ dq ''Meeting'' @ ''}'') @ '' Bye.'')
   = Inr (Some (JObject [(''title'', JString ''Meeting'')]))"
proof -
  have js: "''{'' @ dq ''title'' @ '': '' @ dq ''Meeting'' @ ''}''
              = CHR ''{'' # (dq ''title'' @ '': '' @ dq ''Meeting'') @ [CHR ''}'']"
    by simp
  have q: "CHR 0x27 \<notin> set (''{'' @ dq ''title'' @ '': '' @ dq ''Meeting'' @ ''}'')"
    by code_simp
  have t: "\<not> hasTrailingComma (''{'' @ dq ''title'' @ '': '' @ dq ''Meeting'' @ ''}'')"
    by code_simp
  have p: "jsonParse exampleHost (''{'' @ dq ''title'' @ '': '' @ dq ''Meeting'' @ ''}'')
             = Inr (JObject [(''title'', JString ''Meeting'')])"
    by code_simp
  have a: "CHR ''{'' \<notin> set ''Sure, here it is: ''" by code_simp
  have b: "CHR ''}'' \<notin> set '' Bye.''" by code_simp
  show ?thesis
    by (rule C6_embedded_object_amended [OF a b js q t p])
qed

text \<open>The claim as stated fails in three ways: a closing brace in the suffix moves the
  end of the slice; an apostrophe inside a value is turned into a double quote; a comma
  before a closing brace inside a value is removed. The first two end in \<open>null\<close>, the last
  in a different object.\<close>

theorem C6_embedded_object_counterexample:
  "jsonParse exampleHost ''{}'' = Inr (JObject [])
   \<and> extractAndParseJSONFromString exampleHost (''Here: '' @ ''{}'' @ '' (see the } above)'')
       = Inr None
   \<and> jsonParse exampleHost (''{'' @ dq ''a'' @ '':'' @ dq ''it's'' @ ''}'')
       = Inr (JObject [(''a'', JString ''it's'')])
   \<and> extractAndParseJSONFromString exampleHost (''{'' @ dq ''a'' @ '':'' @ dq ''it's'' @ ''}'')
       = Inr None
   \<and> jsonParse exampleHost (''{'' @ dq ''a'' @ '':'' @ dq ''x,}'' @ ''}'')
       = Inr (JObject [(''a'', JString ''x,}'')])
   \<and> extractAndParseJSONFromString exampleHost (''{'' @ dq ''a'' @ '':'' @ dq ''x,}'' @ ''}'')
       = Inr (Some (JObject [(''a'', JString ''x}'')]))"
  by code_simp

text \<open>
  C3. Let the date string parse to the date \<open>t0\<close>. With \<open>adjustPastYears\<close> false the
  parsed date is formatted unmodified, in every copy of the function. With
  \<open>adjustPastYears\<close> true, \<open>formatDateTimeForGoogle\<close> of src/utils.ts formats the date moved
  by \<open>setFullYear\<close> to the current year when the parsed year is less than the current year,
  and the parsed date otherwise; the later background copy does so only when the parsed
  year is less than \<open>currentYear - 1\<close>. The moved date has the current year as its local
  year and keeps the local time of day, and the local month and day of the month when
  that day exists in the current year (29 February moves to 1 March otherwise). For a
  clock in the years 1000 to 9999 the moved date is a valid date.
\<close>

theorem C3_past_year_adjustment:
  "dateParse h s = Some t0 \<and> s \<noteq> [] \<longrightarrow>
     formatDateTimeForGoogle h (Some s) False = Inr (Some (dateString h s t0))
     \<and> formatDateTimeForGoogle_v2 h (Some s) False = Inr (Some (dateString h s t0))
     \<and> formatDateTimeForGoogle h (Some s) True
         = Inr (if getFullYear h t0 < currentYear h
                then map_option (dateString h s) (setFullYear h t0 (currentYear h))
                else Some (dateString h s t0))
     \<and> formatDateTimeForGoogle_v2 h (Some s) True
         = Inr (if getFullYear h t0 < currentYear h - 1
                then map_option (dateString h s) (setFullYear h t0 (currentYear h))
                else Some (dateString h s t0))
     \<and> (\<forall>t. setFullYear h t0 (currentYear h) = Some t \<longrightarrow>
           getFullYear h t = currentYear h
           \<and> TimeWithinDay (LocalTime h t) = TimeWithinDay (LocalTime h t0)
           \<and> (getDate h t0 \<le> daysInMonth (currentYear h) (getMonth h t0 + 1) \<longrightarrow>
                getMonth h t = getMonth h t0 \<and> getDate h t = getDate h t0))
     \<and> (1000 \<le> currentYear h \<and> currentYear h \<le> 9999 \<and> \<bar>localTZA h\<bar> \<le> msPerDay \<longrightarrow>
           (\<exists>t. setFullYear h t0 (currentYear h) = Some t))"
proof (intro impI)
  assume a: "dateParse h s = Some t0 \<and> s \<noteq> []"
  then have p: "dateParse h s = Some t0" and ne: "s \<noteq> []" by simp_all
  note f = formatDateTimeForGoogle_parsed [OF p ne]
  have 1: "formatDateTimeForGoogle h (Some s) False = Inr (Some (dateString h s t0))"
    by (simp add: f adjustedDate_def)
  have 2: "formatDateTimeForGoogle_v2 h (Some s) False = Inr (Some (dateString h s t0))"
    by (simp add: f adjustedDate_def)
  have 3: "formatDateTimeForGoogle h (Some s) True
         = Inr (if getFullYear h t0 < currentYear h
                then map_option (dateString h s) (setFullYear h t0 (currentYear h))
                else Some (dateString h s t0))"
    by (simp add: f adjustedDate_def currentYear_def)
  have 4: "formatDateTimeForGoogle_v2 h (Some s) True
         = Inr (if getFullYear h t0 < currentYear h - 1
                then map_option (dateString h s) (setFullYear h t0 (currentYear h))
                else Some (dateString h s t0))"
    by (simp add: f adjustedDate_def currentYear_def)
  have 5: "\<forall>t. setFullYear h t0 (currentYear h) = Some t \<longrightarrow>
           getFullYear h t = currentYear h
           \<and> TimeWithinDay (LocalTime h t) = TimeWithinDay (LocalTime h t0)
           \<and> (getDate h t0 \<le> daysInMonth (currentYear h) (getMonth h t0 + 1) \<longrightarrow>
                getMonth h t = getMonth h t0 \<and> getDate h t = getDate h t0)"
    using setFullYear_fields [of h t0 "currentYear h"] by blast
  have 6: "1000 \<le> currentYear h \<and> currentYear h \<le> 9999 \<and> \<bar>localTZA h\<bar> \<le> msPerDay \<longrightarrow>
           (\<exists>t. setFullYear h t0 (currentYear h) = Some t)"
    using setFullYear_valid [of "currentYear h" h t0] by blast
  from 1 2 3 4 5 6
  show "formatDateTimeForGoogle h (Some s) False = Inr (Some (dateString h s t0))
     \<and> formatDateTimeForGoogle_v2 h (Some s) False = Inr (Some (dateString h s t0))
     \<and> formatDateTimeForGoogle h (Some s) True
         = Inr (if getFullYear h t0 < currentYear h
                then map_option (dateString h s) (setFullYear h t0 (currentYear h))
                else Some (dateString h s t0))
     \<and> formatDateTimeForGoogle_v2 h (Some s) True
         = Inr (if getFullYear h t0 < currentYear h - 1
                then map_option (dateString h s) (setFullYear h t0 (currentYear h))
                else Some (dateString h s t0))
     \<and> (\<forall>t. setFullYear h t0 (currentYear h) = Some t \<longrightarrow>
           getFullYear h t = currentYear h
           \<and> TimeWithinDay (LocalTime h t) = TimeWithinDay (LocalTime h t0)
           \<and> (getDate h t0 \<le> daysInMonth (currentYear h) (getMonth h t0 + 1) \<longrightarrow>
                getMonth h t = getMonth h t0 \<and> getDate h t = getDate h t0))
     \<and> (1000 \<le> currentYear h \<and> currentYear h \<le> 9999 \<and> \<bar>localTZA h\<bar> \<le> msPerDay \<longrightarrow>
           (\<exists>t. setFullYear h t0 (currentYear h) = Some t))"
    by blast
qed

theorem C3_past_year_adjustment_witness:
  "formatDateTimeForGoogle exampleHost (Some ''2020-03-30T12:15:00'') False
     = Inr (Some ''20200330T121500Z'')
   \<and> formatDateTimeForGoogle exampleHost (Some ''2020-03-30T12:15:00'') True
     = Inr (Some ''20240330T121500Z'')
   \<and> formatDateTimeForGoogle exampleHost (Some ''2023-03-30T12:15:00'') True
     = Inr (Some ''20240330T121500Z'')
   \<and> formatDateTimeForGoogle_v2 exampleHost (Some ''2023-03-30T12:15:00'') True
     = Inr (Some ''20230330T121500Z'')
   \<and> formatDateTimeForGoogle_v2 exampleHost (Some ''2020-03-30T12:15:00'') True
     = Inr (Some ''20240330T121500Z'')
   \<and> getFullYear exampleHost 1711800900000 = currentYear exampleHost
   \<and> currentYear exampleHost = 2024
   \<and> \<bar>localTZA exampleHost\<bar> \<le> msPerDay
   \<and> setFullYear exampleHost 1585570500000 (currentYear exampleHost) = Some 1711800900000
   \<and> getMonth exampleHost 1711800900000 = getMonth exampleHost 1585570500000
   \<and> getDate exampleHost 1711800900000 = getDate exampleHost 1585570500000"
proof -
  have c: "currentYear exampleHost = 2024" "\<bar>localTZA exampleHost\<bar> \<le> msPerDay"
    "getDate exampleHost 1585570500000
       \<le> daysInMonth (currentYear exampleHost) (getMonth exampleHost 1585570500000 + 1)"
    by code_simp+
  have p: "dateParse exampleHost ''2020-03-30T12:15:00'' = Some 1585570500000"
    "dateParse exampleHost ''2023-03-30T12:15:00'' = Some 1680178500000"
    by code_simp+
  have y: "getFullYear exampleHost 1585570500000 < currentYear exampleHost"
    "getFullYear exampleHost 1680178500000 < currentYear exampleHost"
    "\<not> getFullYear exampleHost 1680178500000 < currentYear exampleHost - 1"
    "getFullYear exampleHost 1585570500000 < currentYear exampleHost - 1"
    by code_simp+
  have sf: "setFullYear exampleHost 1585570500000 (currentYear exampleHost) = Some 1711800900000"
    "setFullYear exampleHost 1680178500000 (currentYear exampleHost) = Some 1711800900000"
    by code_simp+
  have ds: "dateString exampleHost ''2020-03-30T12:15:00'' 1585570500000 = ''20200330T121500Z''"
    "dateString exampleHost ''2020-03-30T12:15:00'' 1711800900000 = ''20240330T121500Z''"
    "dateString exampleHost ''2023-03-30T12:15:00'' 1711800900000 = ''20240330T121500Z''"
    "dateString exampleHost ''2023-03-30T12:15:00'' 1680178500000 = ''20230330T121500Z''"
    by code_simp+
  show ?thesis
    using C3_past_year_adjustment [of exampleHost "''2020-03-30T12:15:00''" 1585570500000]
      C3_past_year_adjustment [of exampleHost "''2023-03-30T12:15:00''" 1680178500000]
      p y sf ds c
    by simp
qed

text \<open>
  C1 (as amended). For an input string that the date parser accepts,
  \<open>formatDateTimeForGoogle\<close> returns \<open>null\<close> only when the past-year adjustment leaves the
  range of valid dates, which does not happen for a clock in the years 1000 to 9999 and
  an offset of at most a day. Otherwise it returns a string in one of two forms, chosen
  by the test of the original input string against \<open>^\d{4}-\d{2}-\d{2}$\<close> alone: when it
  matches, the decimal year, two-digit month and two-digit day of the local calendar
  fields of the (possibly adjusted) date; otherwise the same of its UTC fields, the
  letter \<open>T\<close>, the two-digit UTC hours, minutes and seconds, and \<open>Z\<close>. The year is not
  padded: the first form has 8 digits and the second 16 characters when the year it
  prints lies between 1000 and 9999.
\<close>

theorem C1_two_shapes_amended:
  "dateParse h s = Some t0 \<and> s \<noteq> [] \<longrightarrow>
     formatDateTimeForGoogle h (Some s) adj
       = Inr (case adjustedDate h 0 t0 adj of
                None \<Rightarrow> None
              | Some t \<Rightarrow> Some (if isAllDayString s then localDateString h t
                                 else utcDateTimeString t))
     \<and> (\<not> adj \<or> (1000 \<le> currentYear h \<and> currentYear h \<le> 9999 \<and> \<bar>localTZA h\<bar> \<le> msPerDay)
          \<longrightarrow> (\<exists>t. adjustedDate h 0 t0 adj = Some t))
     \<and> (\<forall>t. (1000 \<le> getFullYear h t \<and> getFullYear h t \<le> 9999
                \<longrightarrow> isAllDayShape (localDateString h t))
             \<and> (1000 \<le> YearFromTime t \<and> YearFromTime t \<le> 9999
                \<longrightarrow> isTimedShape (utcDateTimeString t)))"
proof (intro impI conjI allI)
  assume a: "dateParse h s = Some t0 \<and> s \<noteq> []"
  then show "formatDateTimeForGoogle h (Some s) adj
       = Inr (case adjustedDate h 0 t0 adj of
                None \<Rightarrow> None
              | Some t \<Rightarrow> Some (if isAllDayString s then localDateString h t
                                 else utcDateTimeString t))"
    by (simp add: formatDateTimeForGoogle_Inr formatDateBody_eq)
next
  assume "\<not> adj \<or> (1000 \<le> currentYear h \<and> currentYear h \<le> 9999 \<and> \<bar>localTZA h\<bar> \<le> msPerDay)"
  then show "\<exists>t. adjustedDate h 0 t0 adj = Some t"
    using setFullYear_valid [of "currentYear h" h t0]
    by (auto simp: adjustedDate_def currentYear_def)
next
  fix t
  assume "1000 \<le> getFullYear h t \<and> getFullYear h t \<le> 9999"
  then show "isAllDayShape (localDateString h t)"
    using localDateString_shape by blast
next
  fix t
  assume "1000 \<le> YearFromTime t \<and> YearFromTime t \<le> 9999"
  then show "isTimedShape (utcDateTimeString t)"
    using utcDateTimeString_shape by blast
qed

theorem C1_two_shapes_amended_witness:
  "formatDateTimeForGoogle exampleHost (Some ''2024-12-25'') True = Inr (Some ''20241225'')
   \<and> isAllDayShape (localDateString exampleHost 1735084800000)
   \<and> formatDateTimeForGoogle newYorkHost (Some ''2024-12-05T15:00:00'') True
       = Inr (Some ''20241205T200000Z'')
   \<and> isTimedShape (utcDateTimeString 1733428800000)"
proof -
  have p: "dateParse exampleHost ''2024-12-25'' = Some 1735084800000"
    "dateParse newYorkHost ''2024-12-05T15:00:00'' = Some 1733428800000"
    by code_simp+
  have a: "adjustedDate exampleHost 0 1735084800000 True = Some 1735084800000"
    "adjustedDate newYorkHost 0 1733428800000 True = Some 1733428800000"
    by code_simp+
  have r: "isAllDayString ''2024-12-25''" "\<not> isAllDayString ''2024-12-05T15:00:00''"
    "localDateString exampleHost 1735084800000 = ''20241225''"
    "utcDateTimeString 1733428800000 = ''20241205T200000Z''"
    by code_simp+
  have y: "1000 \<le> getFullYear exampleHost 1735084800000 \<and> getFullYear exampleHost 1735084800000 \<le> 9999"
    "1000 \<le> YearFromTime 1733428800000 \<and> YearFromTime 1733428800000 \<le> 9999"
    by code_simp+
  note t1 = C1_two_shapes_amended [of exampleHost "''2024-12-25''" 1735084800000 True]
  note t2 = C1_two_shapes_amended [of newYorkHost "''2024-12-05T15:00:00''" 1733428800000 True]
  have 1: "formatDateTimeForGoogle exampleHost (Some ''2024-12-25'') True = Inr (Some ''20241225'')"
    using t1 p(1) by (simp add: a r)
  have 2: "isAllDayShape (localDateString exampleHost 1735084800000)"
    using t1 p(1) y(1) by blast
  have 3: "formatDateTimeForGoogle newYorkHost (Some ''2024-12-05T15:00:00'') True
       = Inr (Some ''20241205T200000Z'')"
    using t2 p(2) by (simp add: a r)
  have 4: "isTimedShape (utcDateTimeString 1733428800000)"
    using t2 p(2) y(2) by blast
  from 1 2 3 4 show ?thesis by simp
qed

text \<open>The claim as stated fails: an accepted all-day input of the year 999 gives seven
  digits, an accepted timed input of that year fifteen characters, and with the clock at
  the last valid time value (year 275760) an accepted input of an earlier year gives
  \<open>null\<close>.\<close>

theorem C1_two_shapes_counterexample:
  "dateParse exampleHost ''0999-12-25'' = Some (- 30610828800000)
   \<and> isAllDayString ''0999-12-25''
   \<and> formatDateTimeForGoogle exampleHost (Some ''0999-12-25'') False = Inr (Some ''9991225'')
   \<and> formatDateTimeForGoogle exampleHost (Some ''0999-12-25T10:00:00'') False
       = Inr (Some ''9991225T100000Z'')
   \<and> dateParse (isoHost 0 8640000000000000) ''2024-12-25'' = Some 1735084800000
   \<and> formatDateTimeForGoogle (isoHost 0 8640000000000000) (Some ''2024-12-25'') True = Inr None"
  by code_simp

text \<open>
  C7 (as amended). \<open>calculateNextDay\<close> throws on no string. For a calendar date with a year
  from 1000 to 9999, written as the year, the two-digit month and the two-digit day, it
  returns the following calendar day written the same way, across the ends of months
  and years; the result has 8 digits unless the input is 99991231.
\<close>

theorem C7_next_day_amended:
  "(\<exists>n. calculateNextDay s = Inr n)
   \<and> (1000 \<le> y \<and> y \<le> 9999 \<and> 1 \<le> m \<and> m \<le> 12 \<and> 1 \<le> d \<and> d \<le> daysInMonth y m \<longrightarrow>
        isAllDayShape (ymdString y m d)
        \<and> calculateNextDay (ymdString y m d)
            = Inr (case nextDate y m d of (y', m', d') \<Rightarrow> ymdString y' m' d')
        \<and> (\<not> (y = 9999 \<and> m = 12 \<and> d = 31)
             \<longrightarrow> isAllDayShape (case nextDate y m d of (y', m', d') \<Rightarrow> ymdString y' m' d')))"
proof (intro conjI impI)
  show "\<exists>n. calculateNextDay s = Inr n" by (rule calculateNextDay_returns)
next
  assume a: "1000 \<le> y \<and> y \<le> 9999 \<and> 1 \<le> m \<and> m \<le> 12 \<and> 1 \<le> d \<and> d \<le> daysInMonth y m"
  then have y: "1000 \<le> y" "y \<le> 9999" and m: "1 \<le> m" "m \<le> 12"
    and d: "1 \<le> d" "d \<le> daysInMonth y m" by simp_all
  have shape: "isAllDayShape (ymdString y' m' d')"
    if "1000 \<le> y'" "y' \<le> 9999" "1 \<le> m'" "m' \<le> 12" "1 \<le> d'" "d' \<le> daysInMonth y' m'"
    for y' m' d'
  proof -
    have d31: "d' \<le> 31" using that(6) daysInMonth_range [of y' m'] by linarith
    have r: "0 \<le> m'" "m' \<le> 99" "0 \<le> d'" "d' \<le> 99" using that d31 by simp_all
    show ?thesis
      using intToString_year(1,2) [OF that(1,2)] pad2_field(1,2) [OF r(1,2)]
        pad2_field(1,2) [OF r(3,4)]
      by (simp add: isAllDayShape_def ymdString_def)
  qed
  show "isAllDayShape (ymdString y m d)" by (rule shape [OF y m d])
  obtain y' m' d' where n: "nextDate y m d = (y', m', d')" by (cases "nextDate y m d") auto
  show "calculateNextDay (ymdString y m d)
            = Inr (case nextDate y m d of (y', m', d') \<Rightarrow> ymdString y' m' d')"
    using calculateNextDay_valid [OF y m d n] n by simp
  assume ne: "\<not> (y = 9999 \<and> m = 12 \<and> d = 31)"
  note v = nextDate_valid [OF m d n]
  have "daysInMonth yy 12 = 31" for yy by (simp add: daysInMonth_def)
  then have "y' \<le> 9999" using n ne y m d by (auto simp: nextDate_def split: if_splits)
  moreover have "1000 \<le> y'" using v(5) y by simp
  ultimately have "isAllDayShape (ymdString y' m' d')" using shape v by blast
  then show "isAllDayShape (case nextDate y m d of (y', m', d') \<Rightarrow> ymdString y' m' d')"
    using n by simp
qed

theorem C7_next_day_amended_witness:
  "calculateNextDay ''20241231'' = Inr ''20250101''
   \<and> calculateNextDay ''20240228'' = Inr ''20240229''
   \<and> calculateNextDay ''20230228'' = Inr ''20230301''
   \<and> isAllDayShape ''20250101''"
proof -
  have s: "ymdString 2024 12 31 = ''20241231''" "ymdString 2024 2 28 = ''20240228''"
    "ymdString 2023 2 28 = ''20230228''"
    by code_simp+
  have n: "(case nextDate 2024 12 31 of (y', m', d') \<Rightarrow> ymdString y' m' d') = ''20250101''"
    "(case nextDate 2024 2 28 of (y', m', d') \<Rightarrow> ymdString y' m' d') = ''20240229''"
    "(case nextDate 2023 2 28 of (y', m', d') \<Rightarrow> ymdString y' m' d') = ''20230301''"
    by code_simp+
  have d: "(31::int) \<le> daysInMonth 2024 12" "(28::int) \<le> daysInMonth 2024 2"
    "(28::int) \<le> daysInMonth 2023 2"
    by code_simp+
  from C7_next_day_amended [of "[]" 2024 12 31] d(1)
  have 1: "calculateNextDay ''20241231'' = Inr ''20250101''" and 4: "isAllDayShape ''20250101''"
    by (simp_all add: s n)
  from C7_next_day_amended [of "[]" 2024 2 28] d(2)
  have 2: "calculateNextDay ''20240228'' = Inr ''20240229''"
    by (simp add: s n)
  from C7_next_day_amended [of "[]" 2023 2 28] d(3)
  have 3: "calculateNextDay ''20230228'' = Inr ''20230301''"
    by (simp add: s n)
  from 1 2 3 4 show ?thesis by simp
qed

text \<open>The claim as stated fails: on strings that are not 8-digit dates the function
  returns a different string and never the input (the \<open>catch\<close> that would return it is not
  reached), a year below 100 is read as a year of the twentieth century, and a year
  below 1000 is printed without padding.\<close>

theorem C7_next_day_counterexample:
  "calculateNextDay ''abc'' = Inr ''NaNNaNNaN''
   \<and> calculateNextDay ''2024-12-31'' = Inr ''20231103''
   \<and> calculateNextDay ''20241205T150000Z'' = Inr ''20241206''
   \<and> calculateNextDay ''00501231'' = Inr ''19510101''
   \<and> calculateNextDay ''09990101'' = Inr ''9990102''"
  by code_simp

end
